theory Spec2Isabelle
  imports Complex_Main
begin

section \<open>The turbulence generator (turbulence\_generator.h)\<close>

text \<open>
  A shallow embedding of the C header \<^verbatim>\<open>turbulence_generator.h\<close>.

  Conventions of the embedding:
  \<^item> a C \<^verbatim>\<open>double\<close> is a HOL \<^typ>\<open>real\<close>: arithmetic and the functions of
    \<^verbatim>\<open>math.h\<close> are the exact mathematical ones (no rounding, no infinities, no NaN, so
    the model speaks of runs in which the divisors, the box lengths and \<^verbatim>\<open>tgd.dt\<close> among
    them, are not zero); \<^verbatim>\<open>M_PI\<close> is \<^term>\<open>pi\<close>. The one exception is the quotient
    \<^verbatim>\<open>time / tgd.dt\<close> of \<^verbatim>\<open>TurbGen_check_for_update\<close>, whose floor is the requested step:
    it is rounded to the nearest \<^verbatim>\<open>double\<close> (\<open>round_double\<close>), as the division of two
    doubles is;
  \<^item> a C \<^verbatim>\<open>int\<close> is a HOL \<^typ>\<open>int\<close>. The arithmetic of the two generators stays inside
    32 bits for every seed (Schrage's method), and the one negation that can leave the range
    is written out (\<open>neg_int\<close>). The conversion \<^verbatim>\<open>int step_requested = floor(time / tgd.dt)\<close>
    has the range of a 32-bit \<^verbatim>\<open>int\<close> (\<open>double_to_int\<close>); for a requested step in that
    range the step counter only moves between its old value and the requested step
    (\<open>OU_seek_steps_in_range\<close>), so that \<^verbatim>\<open>tgd.step++\<close> does not overflow;
  \<^item> the fixed-size arrays of \<^verbatim>\<open>struct TurbGenData\<close> are functions from the index,
    updated in place with \<open>f(i := v)\<close>;
  \<^item> the global \<^verbatim>\<open>tgd\<close> and the function-static variables of \<^verbatim>\<open>TurbGen_ran2\<close>
    are one explicit state, passed to and returned by every function that writes it;
  \<^item> \<^verbatim>\<open>exit(-1)\<close> is the error branch \<open>Inl\<close> of a sum type;
  \<^item> \<^verbatim>\<open>TurbGen_printf\<close> only prints and is left out.
\<close>

subsection \<open>Constants, macros and the global data\<close>

definition tgd_max_n_modes :: int where
  "tgd_max_n_modes = 100000"

text \<open>\<^verbatim>\<open>enum {X, Y, Z}\<close>\<close>

definition X :: nat where "X = 0"
definition Y :: nat where "Y = 1"
definition Z :: nat where "Z = 2"

text \<open>\<^verbatim>\<open>#define MIN(a,b) ((a) < (b) ? a : b)\<close> and \<^verbatim>\<open>#define MAX(a,b) ((a) > (b) ? a : b)\<close>\<close>

definition MIN_macro :: "'a::linorder \<Rightarrow> 'a \<Rightarrow> 'a" where
  "MIN_macro a b = (if a < b then a else b)"

definition MAX_macro :: "'a::linorder \<Rightarrow> 'a \<Rightarrow> 'a" where
  "MAX_macro a b = (if a > b then a else b)"

text \<open>Unary minus on a 32-bit \<^verbatim>\<open>int\<close>: the most negative value has no opposite and
  wraps to itself.\<close>

definition neg_int :: "int \<Rightarrow> int" where
  "neg_int i = (if i = - 2147483648 then - 2147483648 else - i)"

text \<open>Integer division of C truncates towards zero.\<close>

definition c_div :: "int \<Rightarrow> int \<Rightarrow> int" where
  "c_div a b = sgn a * sgn b * (\<bar>a\<bar> div \<bar>b\<bar>)"

text \<open>Conversion of a \<^verbatim>\<open>double\<close> to \<^verbatim>\<open>int\<close> truncates towards zero; \<^verbatim>\<open>round\<close> rounds
  halves away from zero.\<close>

definition c_trunc :: "real \<Rightarrow> int" where
  "c_trunc x = (if x \<ge> 0 then \<lfloor>x\<rfloor> else \<lceil>x\<rceil>)"

definition c_round :: "real \<Rightarrow> int" where
  "c_round x = (if x \<ge> 0 then \<lfloor>x + 1 / 2\<rfloor> else - \<lfloor>- x + 1 / 2\<rfloor>)"

text \<open>\<^verbatim>\<open>pow(x, y)\<close> where its value is a real number; where C yields an infinity or NaN
  (a zero base with a negative exponent, a negative base with a fractional exponent) the
  model returns 0.\<close>

definition c_pow :: "real \<Rightarrow> real \<Rightarrow> real" where
  "c_pow x y =
    (if y = 0 then 1
     else if x > 0 then x powr y
     else if x = 0 then 0
     else if y = real_of_int \<lfloor>y\<rfloor> then power_int x \<lfloor>y\<rfloor>
     else 0)"

text \<open>\<^verbatim>\<open>DBL_EPSILON\<close> of \<^verbatim>\<open>float.h\<close>\<close>

definition DBL_EPSILON :: real where
  "DBL_EPSILON = 1 / 2 ^ 52"

datatype error = TooManyModes

record TurbGenData =
  debug :: bool
  PE :: int
  parameter_file :: string
  n_modes :: int
  OUvar :: real
  mode :: "nat \<Rightarrow> nat \<Rightarrow> real"
  aka :: "nat \<Rightarrow> nat \<Rightarrow> real"
  akb :: "nat \<Rightarrow> nat \<Rightarrow> real"
  OUphases :: "nat \<Rightarrow> real"
  ampl :: "nat \<Rightarrow> real"
  ndim :: int
  random_seed :: int
  seed :: int
  spect_form :: int
  nsteps_per_turnover_time :: int
  step :: int
  xmin :: real
  xmax :: real
  ymin :: real
  ymax :: real
  zmin :: real
  zmax :: real
  Lx :: real
  decay :: real
  dt :: real
  energy :: real
  stir_min :: real
  stir_max :: real
  sol_weight :: real
  sol_weight_norm :: real
  velocity :: real
  power_law_exp :: real
  angles_exp :: real

text \<open>The three \<^verbatim>\<open>static\<close> variables declared inside \<^verbatim>\<open>TurbGen_ran2\<close>, and the whole
  mutable state of the program: the global \<^verbatim>\<open>tgd\<close> together with them.\<close>

record ran2_statics =
  idum2 :: int
  iy :: int
  iv :: "nat \<Rightarrow> int"

record globals = TurbGenData +
  ran2 :: ran2_statics

subsection \<open>The fast uniform generator and the Gaussian sampler\<close>

text \<open>\<^verbatim>\<open>TurbGen_ran1s(int * idum)\<close>: the argument is the value behind the pointer, the
  result is the deviate and the value left behind the pointer.\<close>

definition TurbGen_ran1s :: "int \<Rightarrow> real \<times> int" where
  "TurbGen_ran1s idum =
    (let IA = 16807; IM = 2147483647; IQ = 127773; IR = 2836;
         AM = 1 / real_of_int IM; EPS = 12 / 100000000; RNMX = 1 - EPS;
         idum = (if idum \<le> 0 then MAX_macro (neg_int idum) 1 else idum);
         k = c_div idum IQ;
         idum = IA * (idum - k * IQ) - IR * k;
         idum = (if idum < 0 then idum + IM else idum);
         iy = idum;
         ret = MIN_macro (AM * real_of_int iy) RNMX
     in (ret, idum))"

text \<open>\<^verbatim>\<open>TurbGen_grn\<close>: two draws of \<open>TurbGen_ran1s\<close> on \<^verbatim>\<open>tgd.seed\<close>, one deviate.\<close>

definition TurbGen_grn :: "globals \<Rightarrow> real \<times> globals" where
  "TurbGen_grn s =
    (let (r1, sd) = TurbGen_ran1s (seed s);
         (r2, sd) = TurbGen_ran1s sd;
         g1 = sqrt (2 * ln (1 / r1)) * cos (2 * pi * r2)
     in (g1, s\<lparr>seed := sd\<rparr>))"

subsection \<open>The Ornstein-Uhlenbeck phases\<close>

text \<open>\<^verbatim>\<open>TurbGen_OU_noise_init\<close>\<close>

definition OU_noise_init_body :: "nat \<Rightarrow> globals \<Rightarrow> globals" where
  "OU_noise_init_body i s =
    (let (g, s) = TurbGen_grn s
     in s\<lparr>OUphases := (OUphases s)(i := OUvar s * g)\<rparr>)"

definition TurbGen_OU_noise_init :: "globals \<Rightarrow> globals" where
  "TurbGen_OU_noise_init s = fold OU_noise_init_body [0..<nat (6 * n_modes s)] s"

text \<open>\<^verbatim>\<open>TurbGen_OU_noise_update\<close>: the body of the loop over the phase slots, the loop,
  then \<^verbatim>\<open>tgd.step++\<close>.\<close>

definition OU_noise_update_body :: "real \<Rightarrow> nat \<Rightarrow> globals \<Rightarrow> globals" where
  "OU_noise_update_body damping_factor i s =
    (let (g, s) = TurbGen_grn s
     in s\<lparr>OUphases := (OUphases s)(i := OUphases s i * damping_factor +
            sqrt (1 - damping_factor * damping_factor) * OUvar s * g)\<rparr>)"

definition TurbGen_OU_noise_update :: "globals \<Rightarrow> globals" where
  "TurbGen_OU_noise_update s =
    (let damping_factor = exp (- dt s / decay s);
         s = fold (OU_noise_update_body damping_factor) [0..<nat (6 * n_modes s)] s
     in s\<lparr>step := step s + 1\<rparr>)"

subsection \<open>The decomposition into solenoidal and compressive parts\<close>

text \<open>\<^verbatim>\<open>TurbGen_get_decomposition_coeffs\<close>: for mode \<open>i\<close>, the first inner loop
  accumulates \<open>(ka, kb, kk)\<close>, the second writes \<open>aka[j][i]\<close> and \<open>akb[j][i]\<close>.\<close>

definition decomposition_sums_body :: "globals \<Rightarrow> nat \<Rightarrow> nat \<Rightarrow> real \<times> real \<times> real \<Rightarrow> real \<times> real \<times> real" where
  "decomposition_sums_body s i j acc =
    (case acc of (ka, kb, kk) \<Rightarrow>
      (let kk = kk + mode s j i * mode s j i;
           ka = ka + mode s j i * OUphases s (6 * i + 2 * j + 1);
           kb = kb + mode s j i * OUphases s (6 * i + 2 * j + 0)
       in (ka, kb, kk)))"

definition decomposition_write_body :: "real \<Rightarrow> real \<Rightarrow> real \<Rightarrow> nat \<Rightarrow> nat \<Rightarrow> globals \<Rightarrow> globals" where
  "decomposition_write_body ka kb kk i j s =
    (let diva = mode s j i * ka / kk;
         divb = mode s j i * kb / kk;
         curla = OUphases s (6 * i + 2 * j + 0) - divb;
         curlb = OUphases s (6 * i + 2 * j + 1) - diva
     in s\<lparr>aka := (aka s)(j := (aka s j)(i := sol_weight s * curla + (1 - sol_weight s) * divb)),
          akb := (akb s)(j := (akb s j)(i := sol_weight s * curlb + (1 - sol_weight s) * diva))\<rparr>)"

definition decomposition_mode_body :: "nat \<Rightarrow> globals \<Rightarrow> globals" where
  "decomposition_mode_body i s =
    (case fold (decomposition_sums_body s i) [0..<nat (ndim s)] (0, 0, 0) of
      (ka, kb, kk) \<Rightarrow> fold (decomposition_write_body ka kb kk i) [0..<nat (ndim s)] s)"

definition TurbGen_get_decomposition_coeffs :: "globals \<Rightarrow> globals" where
  "TurbGen_get_decomposition_coeffs s = fold decomposition_mode_body [0..<nat (n_modes s)] s"

subsection \<open>The update controller\<close>

text \<open>The loop \<^verbatim>\<open>for (int is = tgd.step; is < step_requested; is++) TurbGen_OU_noise_update();\<close>\<close>

function OU_seek :: "int \<Rightarrow> int \<Rightarrow> globals \<Rightarrow> globals" where
  "OU_seek is step_requested s =
    (if is < step_requested then OU_seek (is + 1) step_requested (TurbGen_OU_noise_update s) else s)"
  by pat_completeness auto
termination
  by (relation "measure (\<lambda>(is, step_requested, s). nat (step_requested - is))") auto

declare OU_seek.simps [simp del]

text \<open>The division \<^verbatim>\<open>time / tgd.dt\<close> of two doubles delivers the \<^verbatim>\<open>double\<close> nearest to the
  exact quotient, a tie going to the neighbour with the even significand (IEEE 754 binary64,
  round to nearest even). A double has a significand of 53 bits: the doubles around a number
  of magnitude in \<open>[2^e, 2^(e+1))\<close> are the multiples of \<open>2^(e-52)\<close>, and those below
  \<open>2^(-1022)\<close> the multiples of \<open>2^(-1074)\<close>. Quotients beyond the largest double are not
  modelled.\<close>

definition round_half_even :: "real \<Rightarrow> int" where
  "round_half_even m =
    (let f = \<lfloor>m\<rfloor>; r = m - real_of_int f
     in if r < 1 / 2 then f else if r > 1 / 2 then f + 1 else if even f then f else f + 1)"

definition round_double :: "real \<Rightarrow> real" where
  "round_double x =
    (if x = 0 then 0
     else (let e = max \<lfloor>log 2 \<bar>x\<bar>\<rfloor> (- 1022);
               ulp = power_int 2 (e - 52)
           in sgn x * real_of_int (round_half_even (\<bar>x\<bar> / ulp)) * ulp))"

text \<open>The conversion of a \<^verbatim>\<open>double\<close> to a 32-bit \<^verbatim>\<open>int\<close>: the truncated value when it
  is in \<open>[-2^31, 2^31 - 1]\<close>. Outside that range C leaves the conversion undefined; the
  model takes what the conversion instruction of x86-64 delivers there, the most negative
  \<^verbatim>\<open>int\<close>.\<close>

definition double_to_int :: "real \<Rightarrow> int" where
  "double_to_int x =
    (if - 2147483648 \<le> c_trunc x \<and> c_trunc x \<le> 2147483647 then c_trunc x else - 2147483648)"

text \<open>\<^verbatim>\<open>TurbGen_check_for_update(time)\<close>: the returned flag and the state left behind.
  \<^verbatim>\<open>floor\<close> maps a double to a double with an integer value, which the initialisation of
  \<^verbatim>\<open>step_requested\<close> converts.\<close>

definition TurbGen_check_for_update :: "real \<Rightarrow> globals \<Rightarrow> bool \<times> globals" where
  "TurbGen_check_for_update time s =
    (let step_requested = double_to_int (real_of_int \<lfloor>round_double (time / dt s)\<rfloor>)
     in if step_requested \<le> step s then (False, s)
        else (let s = OU_seek (step s) step_requested s;
                  s = TurbGen_get_decomposition_coeffs s
              in (True, s)))"

subsection \<open>The field evaluator\<close>

text \<open>\<^verbatim>\<open>TurbGen_get_turb_vector\<close>: the first loop fills the six local tables, the second
  accumulates the three components.\<close>

record trig_tables =
  sinx :: "nat \<Rightarrow> real"
  cosx :: "nat \<Rightarrow> real"
  siny :: "nat \<Rightarrow> real"
  cosy :: "nat \<Rightarrow> real"
  sinz :: "nat \<Rightarrow> real"
  cosz :: "nat \<Rightarrow> real"

definition trig_tables_body :: "globals \<Rightarrow> real \<Rightarrow> real \<Rightarrow> real \<Rightarrow> nat \<Rightarrow> trig_tables \<Rightarrow> trig_tables" where
  "trig_tables_body s x y z m t =
    t\<lparr>sinx := (sinx t)(m := sin (mode s X m * x)),
      cosx := (cosx t)(m := cos (mode s X m * x)),
      siny := (siny t)(m := sin (mode s Y m * y)),
      cosy := (cosy t)(m := cos (mode s Y m * y)),
      sinz := (sinz t)(m := sin (mode s Z m * z)),
      cosz := (cosz t)(m := cos (mode s Z m * z))\<rparr>"

definition turb_vector_body :: "globals \<Rightarrow> trig_tables \<Rightarrow> nat \<Rightarrow> real \<times> real \<times> real \<Rightarrow> real \<times> real \<times> real" where
  "turb_vector_body s t m v =
    (case v of (vx, vy, vz) \<Rightarrow>
      (let real = (cosx t m * cosy t m - sinx t m * siny t m) * cosz t m
                  - (sinx t m * cosy t m + cosx t m * siny t m) * sinz t m;
           imag = cosx t m * (cosy t m * sinz t m + siny t m * cosz t m)
                  + sinx t m * (cosy t m * cosz t m - siny t m * sinz t m)
       in (vx + 2 * sol_weight_norm s * ampl s m * (aka s X m * real - akb s X m * imag),
           vy + 2 * sol_weight_norm s * ampl s m * (aka s Y m * real - akb s Y m * imag),
           vz + 2 * sol_weight_norm s * ampl s m * (aka s Z m * real - akb s Z m * imag))))"

text \<open>The local tables are uninitialised in C; \<open>t0\<close> stands for their content on entry,
  of which only entries written by the first loop are read.\<close>

definition TurbGen_get_turb_vector :: "trig_tables \<Rightarrow> globals \<Rightarrow> real \<Rightarrow> real \<Rightarrow> real \<Rightarrow> real \<times> real \<times> real" where
  "TurbGen_get_turb_vector t0 s x y z =
    (let t = fold (trig_tables_body s x y z) [0..<nat (n_modes s)] t0
     in fold (turb_vector_body s t) [0..<nat (n_modes s)] (0, 0, 0))"

subsection \<open>The long-period uniform generator\<close>

text \<open>\<^verbatim>\<open>TurbGen_ran2(int * idum)\<close>. The warm-up loop
  \<^verbatim>\<open>for (j = NTAB+7; j >= 0; j--)\<close> works on \<^verbatim>\<open>*idum\<close> and the shuffle table \<^verbatim>\<open>iv\<close>.\<close>

definition ran2_init_body :: "nat \<Rightarrow> int \<times> (nat \<Rightarrow> int) \<Rightarrow> int \<times> (nat \<Rightarrow> int)" where
  "ran2_init_body j st =
    (case st of (idum, table) \<Rightarrow>
      (let IM1 = 2147483563; IA1 = 40014; IQ1 = 53668; IR1 = 12211; NTAB = 32;
           k = c_div idum IQ1;
           idum = IA1 * (idum - k * IQ1) - k * IR1;
           idum = (if idum < 0 then idum + IM1 else idum);
           table = (if j < NTAB then table(j := idum) else table)
       in (idum, table)))"

text \<open>The argument is the value behind the pointer; the result is the deviate, the value
  left behind the pointer, and the static variables as the call leaves them.\<close>

definition TurbGen_ran2 :: "int \<Rightarrow> ran2_statics \<Rightarrow> real \<times> int \<times> ran2_statics" where
  "TurbGen_ran2 idum s =
    (let IM1 = 2147483563; IM2 = 2147483399; IMM1 = IM1 - 1; IA1 = 40014; IA2 = 40692;
         IQ1 = 53668; IQ2 = 52774; IR1 = 12211; IR2 = 3791; NTAB = 32;
         NDIV = 1 + c_div IMM1 (int NTAB);
         AM = 1 / real_of_int IM1; EPS = 12 / 100000000; RNMX = 1 - EPS;
         (idum, s) =
           (if idum \<le> 0 then
              (let idum = MAX_macro (neg_int idum) 1;
                   s = s\<lparr>idum2 := idum\<rparr>;
                   (idum, iv') = fold ran2_init_body (rev [0..<NTAB + 8]) (idum, iv s);
                   s = s\<lparr>iv := iv'\<rparr>;
                   s = s\<lparr>iy := iv s 0\<rparr>
               in (idum, s))
            else (idum, s));
         k = c_div idum IQ1;
         idum = IA1 * (idum - k * IQ1) - k * IR1;
         idum = (if idum < 0 then idum + IM1 else idum);
         k = c_div (idum2 s) IQ2;
         s = s\<lparr>idum2 := IA2 * (idum2 s - k * IQ2) - k * IR2\<rparr>;
         s = (if idum2 s < 0 then s\<lparr>idum2 := idum2 s + IM2\<rparr> else s);
         j = c_div (iy s) NDIV;
         s = s\<lparr>iy := iv s (nat j) - idum2 s\<rparr>;
         s = s\<lparr>iv := (iv s)(nat j := idum)\<rparr>;
         s = (if iy s < 1 then s\<lparr>iy := iy s + IMM1\<rparr> else s);
         ret = MIN_macro (AM * real_of_int (iy s)) RNMX
     in (ret, idum, s))"

text \<open>The call \<^verbatim>\<open>TurbGen_ran2(&tgd.seed)\<close>\<close>

definition ran2_seed :: "globals \<Rightarrow> real \<times> globals" where
  "ran2_seed s =
    (case TurbGen_ran2 (seed s) (ran2 s) of (ret, idum, st) \<Rightarrow> (ret, s\<lparr>seed := idum, ran2 := st\<rparr>))"

subsection \<open>The mode set builder\<close>

text \<open>The block that appends one mode, written out five times in \<^verbatim>\<open>TurbGen_init_modes\<close>:
  \<^verbatim>\<open>tgd.n_modes++; tgd.ampl[tgd.n_modes] = amplitude; tgd.mode[X][tgd.n_modes] = kx; ...\<close>\<close>

definition store_mode :: "real \<Rightarrow> real \<Rightarrow> real \<Rightarrow> real \<Rightarrow> globals \<Rightarrow> globals" where
  "store_mode amplitude kx ky kz s =
    (let s = s\<lparr>n_modes := n_modes s + 1\<rparr>;
         s = s\<lparr>ampl := (ampl s)(nat (n_modes s) := amplitude)\<rparr>;
         s = s\<lparr>mode := (mode s)(X := (mode s X)(nat (n_modes s) := kx))\<rparr>;
         s = s\<lparr>mode := (mode s)(Y := (mode s Y)(nat (n_modes s) := ky))\<rparr>;
         s = s\<lparr>mode := (mode s)(Z := (mode s Z)(nat (n_modes s) := kz))\<rparr>
     in s)"

text \<open>The counting pass: the three nested loops over \<open>ikx\<close>, \<open>iky\<close>, \<open>ikz\<close>, innermost
  first.\<close>

definition count_ikz :: "real \<Rightarrow> real \<Rightarrow> real \<Rightarrow> int \<Rightarrow> globals \<Rightarrow> globals" where
  "count_ikz Lz kx ky ikz s =
    (let kz = 2 * pi * real_of_int ikz / Lz;
         k = sqrt (kx * kx + ky * ky + kz * kz)
     in if k \<ge> stir_min s \<and> k \<le> stir_max s then
          (let s = s\<lparr>n_modes := n_modes s + 1\<rparr>;
               s = (if ndim s > 1 then s\<lparr>n_modes := n_modes s + 1\<rparr> else s);
               s = (if ndim s > 2 then s\<lparr>n_modes := n_modes s + 2\<rparr> else s)
           in s)
        else s)"

definition count_iky :: "real \<Rightarrow> real \<Rightarrow> int \<Rightarrow> int \<Rightarrow> real \<Rightarrow> int \<Rightarrow> globals \<Rightarrow> globals" where
  "count_iky Ly Lz ikzmin ikzmax kx iky s =
    (let ky = 2 * pi * real_of_int iky / Ly
     in fold (count_ikz Lz kx ky) [ikzmin..ikzmax] s)"

definition count_ikx :: "real \<Rightarrow> real \<Rightarrow> real \<Rightarrow> int \<Rightarrow> int \<Rightarrow> int \<Rightarrow> int \<Rightarrow> int \<Rightarrow> globals \<Rightarrow> globals" where
  "count_ikx Lx' Ly Lz ikymin ikymax ikzmin ikzmax ikx s =
    (let kx = 2 * pi * real_of_int ikx / Lx'
     in fold (count_iky Ly Lz ikzmin ikzmax kx) [ikymin..ikymax] s)"

text \<open>The generating pass for the Band and Parabola forms. The local \<^verbatim>\<open>amplitude\<close> is
  carried from one iteration to the next, as in C, where neither of the two assignments
  \<^verbatim>\<open>if (tgd.spect_form == 0) ...\<close>, \<^verbatim>\<open>if (tgd.spect_form == 1) ...\<close> applies.\<close>

definition gen_ikz :: "real \<Rightarrow> real \<Rightarrow> real \<Rightarrow> real \<Rightarrow> real \<Rightarrow> int \<Rightarrow> real \<times> globals \<Rightarrow> real \<times> globals" where
  "gen_ikz parab_prefact kc Lz kx ky ikz st =
    (case st of (amplitude, s) \<Rightarrow>
      (let kz = 2 * pi * real_of_int ikz / Lz;
           k = sqrt (kx * kx + ky * ky + kz * kz)
       in if k \<ge> stir_min s \<and> k \<le> stir_max s then
            (let amplitude = (if spect_form s = 0 then 1 else amplitude);
                 amplitude = (if spect_form s = 1 then \<bar>parab_prefact * c_pow (k - kc) 2 + 1\<bar> else amplitude);
                 amplitude = sqrt amplitude * c_pow (kc / k) (real_of_int (ndim s - 1) / 2);
                 s = store_mode amplitude kx ky kz s;
                 s = (if ndim s > 1 then store_mode amplitude kx (- ky) kz s else s);
                 s = (if ndim s > 2 then
                        store_mode amplitude kx (- ky) (- kz) (store_mode amplitude kx ky (- kz) s)
                      else s)
             in (amplitude, s))
          else (amplitude, s)))"

definition gen_iky :: "real \<Rightarrow> real \<Rightarrow> real \<Rightarrow> real \<Rightarrow> int \<Rightarrow> int \<Rightarrow> real \<Rightarrow> int \<Rightarrow> real \<times> globals \<Rightarrow> real \<times> globals" where
  "gen_iky parab_prefact kc Ly Lz ikzmin ikzmax kx iky st =
    (let ky = 2 * pi * real_of_int iky / Ly
     in fold (gen_ikz parab_prefact kc Lz kx ky) [ikzmin..ikzmax] st)"

definition gen_ikx :: "real \<Rightarrow> real \<Rightarrow> real \<Rightarrow> real \<Rightarrow> real \<Rightarrow> int \<Rightarrow> int \<Rightarrow> int \<Rightarrow> int \<Rightarrow> int \<Rightarrow> real \<times> globals \<Rightarrow> real \<times> globals" where
  "gen_ikx parab_prefact kc Lx' Ly Lz ikymin ikymax ikzmin ikzmax ikx st =
    (let kx = 2 * pi * real_of_int ikx / Lx'
     in fold (gen_iky parab_prefact kc Ly Lz ikzmin ikzmax kx) [ikymin..ikymax] st)"

text \<open>The power-law form, one pass of the loop over the angles. First the draws and the
  candidate wavevector \<open>(kx, ky, kz)\<close>:\<close>

definition power_law_sample :: "real \<Rightarrow> real \<Rightarrow> real \<Rightarrow> int \<Rightarrow> globals \<Rightarrow> (real \<times> real \<times> real) \<times> globals" where
  "power_law_sample Lx' Ly Lz ik s =
    (let (u, s) = ran2_seed s;
         phi = 2 * pi * u;
         phi = (if ndim s = 1 then
                  (let phi = (if phi < pi then 0 else phi);
                       phi = (if phi \<ge> pi then pi else phi)
                   in phi)
                else phi);
         theta = pi / 2;
         (theta, s) = (if ndim s > 2 then
                         (let (u, s) = ran2_seed s in (arccos (1 - 2 * u), s))
                       else (theta, s));
         (u, s) = ran2_seed s;
         rand = real_of_int ik + u - 1 / 2;
         kx = 2 * pi * real_of_int (c_round (rand * sin theta * cos phi)) / Lx';
         ky = 0;
         ky = (if ndim s > 1 then 2 * pi * real_of_int (c_round (rand * sin theta * sin phi)) / Ly else ky);
         kz = 0;
         kz = (if ndim s > 2 then 2 * pi * real_of_int (c_round (rand * cos theta)) / Lz else kz)
     in ((kx, ky, kz), s))"

text \<open>then the band check, the capacity check and the new mode. Once \<^verbatim>\<open>exit(-1)\<close> has been
  reached nothing more happens.\<close>

definition power_law_iang :: "real \<Rightarrow> real \<Rightarrow> real \<Rightarrow> real \<Rightarrow> int \<Rightarrow> int \<Rightarrow> int \<Rightarrow> error + globals \<Rightarrow> error + globals" where
  "power_law_iang kc Lx' Ly Lz ik nang iang r =
    (case r of Inl e \<Rightarrow> Inl e | Inr s \<Rightarrow>
      (case power_law_sample Lx' Ly Lz ik s of ((kx, ky, kz), s) \<Rightarrow>
        (let k = sqrt (kx * kx + ky * ky + kz * kz)
         in if k \<ge> stir_min s \<and> k \<le> stir_max s then
              (if real_of_int (n_modes s) + c_pow 2 (real_of_int (ndim s - 1)) > real_of_int tgd_max_n_modes
               then Inl TooManyModes
               else
                 (let amplitude = c_pow (k / kc) (power_law_exp s);
                      amplitude = sqrt (amplitude * c_pow (real_of_int ik) (real_of_int (ndim s - 1))
                                    / real_of_int nang * 4 * sqrt 3)
                                  * c_pow (kc / k) (real_of_int (ndim s - 1) / 2)
                  in Inr (store_mode amplitude kx ky kz s)))
            else Inr s)))"

definition power_law_ik :: "real \<Rightarrow> real \<Rightarrow> real \<Rightarrow> real \<Rightarrow> int \<Rightarrow> error + globals \<Rightarrow> error + globals" where
  "power_law_ik kc Lx' Ly Lz ik r =
    (case r of Inl e \<Rightarrow> Inl e | Inr s \<Rightarrow>
      (let nang = c_trunc (c_pow 2 (real_of_int (ndim s))
                           * real_of_int \<lceil>c_pow (real_of_int ik) (angles_exp s)\<rceil>)
       in fold (power_law_iang kc Lx' Ly Lz ik nang) [1..nang] (Inr s)))"

definition power_law_modes :: "real \<Rightarrow> real \<Rightarrow> real \<Rightarrow> real \<Rightarrow> globals \<Rightarrow> error + globals" where
  "power_law_modes kc Lx' Ly Lz s =
    (let seed = neg_int (seed s);
         (rand, seed, st) = TurbGen_ran2 seed (ran2 s);
         s = s\<lparr>ran2 := st\<rparr>;
         ikmin = c_trunc (MAX_macro 1 (real_of_int (c_round (stir_min s * Lx' / (2 * pi)))));
         ikmax = c_round (stir_max s * Lx' / (2 * pi))
     in fold (power_law_ik kc Lx' Ly Lz) [ikmin..ikmax] (Inr s))"

text \<open>The counting pass of \<^verbatim>\<open>TurbGen_init_modes\<close>, from \<^verbatim>\<open>tgd.n_modes = 0\<close> to the end of
  its loops: \<open>n_modes\<close> of the result is what the code keeps as \<^verbatim>\<open>tot_n_modes\<close>.\<close>

definition count_pass :: "globals \<Rightarrow> globals" where
  "count_pass s =
    (let ikxmin = 0; ikymin = 0; ikzmin = 0;
         ikxmax = 256; ikymax = 0; ikzmax = 0;
         ikymax = (if ndim s > 1 then 256 else ikymax);
         ikzmax = (if ndim s > 2 then 256 else ikzmax);
         Lx = xmax s - xmin s;
         Ly = ymax s - ymin s;
         Lz = zmax s - zmin s;
         s = s\<lparr>n_modes := 0\<rparr>
     in fold (count_ikx Lx Ly Lz ikymin ikymax ikzmin ikzmax) [ikxmin..ikxmax] s)"

text \<open>\<^verbatim>\<open>TurbGen_init_modes\<close>. \<open>amplitude0\<close> stands for the content of the uninitialised
  local \<^verbatim>\<open>amplitude\<close> on entry.\<close>

definition TurbGen_init_modes :: "real \<Rightarrow> globals \<Rightarrow> error + globals" where
  "TurbGen_init_modes amplitude0 s =
    (let parab_prefact = - 4 / c_pow (stir_max s - stir_min s) 2;
         kc = stir_min s;
         kc = (if spect_form s = 1 then (1 / 2) * (stir_min s + stir_max s) else kc);
         ikxmin = 0; ikymin = 0; ikzmin = 0;
         ikxmax = 256; ikymax = 0; ikzmax = 0;
         ikymax = (if ndim s > 1 then 256 else ikymax);
         ikzmax = (if ndim s > 2 then 256 else ikzmax);
         Lx = xmax s - xmin s;
         Ly = ymax s - ymin s;
         Lz = zmax s - zmin s;
         s = count_pass s;
         tot_n_modes = n_modes s
     in if spect_form s \<noteq> 2 \<and>
           real_of_int tot_n_modes + c_pow 2 (real_of_int (ndim s - 1)) > real_of_int tgd_max_n_modes
        then Inl TooManyModes
        else
          (let s = s\<lparr>n_modes := - 1\<rparr>;
               s = (if spect_form s \<noteq> 2 then
                      snd (fold (gen_ikx parab_prefact kc Lx Ly Lz ikymin ikymax ikzmin ikzmax)
                             [ikxmin..ikxmax] (amplitude0, s))
                    else s)
           in case (if spect_form s = 2 then power_law_modes kc Lx Ly Lz s else Inr s) of
                Inl e \<Rightarrow> Inl e
              | Inr s \<Rightarrow> Inr (s\<lparr>n_modes := n_modes s + 1\<rparr>)))"

subsection \<open>Initialisation\<close>

text \<open>The values \<^verbatim>\<open>TurbGen_read_from_parameter_file\<close> delivers for the keys of the
  parameter file. Reading the file is input; a missing file or key ends the program before
  any of the code below runs.\<close>

record parameters =
  par_ndim :: int
  par_xmin :: real
  par_xmax :: real
  par_ymin :: real
  par_ymax :: real
  par_zmin :: real
  par_zmax :: real
  par_velocity :: real
  par_k_driv :: real
  par_k_min :: real
  par_k_max :: real
  par_sol_weight :: real
  par_spect_form :: int
  par_power_law_exp :: real
  par_angles_exp :: real
  par_energy_coeff :: real
  par_random_seed :: int
  par_nsteps_per_turnover_time :: int

text \<open>\<^verbatim>\<open>TurbGen_init_turbulence_generator\<close>. First the assignments of the values read and
  of the derived quantities, up to \<^verbatim>\<open>tgd.sol_weight_norm\<close>, which each of the three
  conditional assignments either sets or leaves as it is:\<close>

definition init_parameters :: "parameters \<Rightarrow> string \<Rightarrow> int \<Rightarrow> globals \<Rightarrow> globals" where
  "init_parameters par file pe s =
    (let s = s\<lparr>parameter_file := file\<rparr>;
         s = s\<lparr>PE := pe\<rparr>;
         s = s\<lparr>ndim := par_ndim par, xmin := par_xmin par, xmax := par_xmax par,
               ymin := par_ymin par, ymax := par_ymax par,
               zmin := par_zmin par, zmax := par_zmax par,
               velocity := par_velocity par\<rparr>;
         k_driv = par_k_driv par; k_min = par_k_min par; k_max = par_k_max par;
         s = s\<lparr>sol_weight := par_sol_weight par, spect_form := par_spect_form par,
               power_law_exp := par_power_law_exp par, angles_exp := par_angles_exp par\<rparr>;
         energy_coeff = par_energy_coeff par;
         s = s\<lparr>random_seed := par_random_seed par,
               nsteps_per_turnover_time := par_nsteps_per_turnover_time par\<rparr>;
         s = s\<lparr>Lx := xmax s - xmin s\<rparr>;
         s = s\<lparr>stir_min := (k_min - DBL_EPSILON) * 2 * pi / Lx s\<rparr>;
         s = s\<lparr>stir_max := (k_max + DBL_EPSILON) * 2 * pi / Lx s\<rparr>;
         s = s\<lparr>decay := Lx s / k_driv / velocity s\<rparr>;
         s = s\<lparr>energy := energy_coeff * c_pow (velocity s) 3 / Lx s\<rparr>;
         s = s\<lparr>OUvar := sqrt (energy s / decay s)\<rparr>;
         s = s\<lparr>dt := decay s / real_of_int (nsteps_per_turnover_time s)\<rparr>;
         s = s\<lparr>step := - 1\<rparr>;
         s = s\<lparr>seed := random_seed s\<rparr>;
         s = s\<lparr>sol_weight_norm :=
                 (if ndim s = 3 then sqrt (3 / 3) * sqrt 3 * 1
                                       / sqrt (1 - 2 * sol_weight s + 3 * c_pow (sol_weight s) 2)
                  else sol_weight_norm s)\<rparr>;
         s = s\<lparr>sol_weight_norm :=
                 (if ndim s = 2 then sqrt (3 / 2) * sqrt 3 * 1
                                       / sqrt (1 - 2 * sol_weight s + 2 * c_pow (sol_weight s) 2)
                  else sol_weight_norm s)\<rparr>;
         s = s\<lparr>sol_weight_norm :=
                 (if ndim s = 1 then sqrt (3 / 1) * sqrt 3 * 1
                                       / sqrt (1 - 2 * sol_weight s + 1 * c_pow (sol_weight s) 2)
                  else sol_weight_norm s)\<rparr>
     in s)"

text \<open>then the modes, the first phases and the first decomposition.\<close>

definition TurbGen_init_turbulence_generator ::
    "parameters \<Rightarrow> string \<Rightarrow> int \<Rightarrow> real \<Rightarrow> globals \<Rightarrow> error + globals" where
  "TurbGen_init_turbulence_generator par file pe amplitude0 s =
    (let s = init_parameters par file pe s
     in case TurbGen_init_modes amplitude0 s of
          Inl e \<Rightarrow> Inl e
        | Inr s \<Rightarrow> Inr (TurbGen_get_decomposition_coeffs (TurbGen_OU_noise_init s)))"

subsection \<open>Notions used to state the properties\<close>

text \<open>The phase \<open>k\<^sub>m \<cdot> x\<close> of mode \<open>m\<close> at a position, and the contribution of mode \<open>m\<close>
  to component \<open>c\<close> of the field.\<close>

definition phase_angle :: "globals \<Rightarrow> real \<Rightarrow> real \<Rightarrow> real \<Rightarrow> nat \<Rightarrow> real" where
  "phase_angle s x y z m = mode s X m * x + mode s Y m * y + mode s Z m * z"

definition mode_term :: "globals \<Rightarrow> real \<Rightarrow> real \<Rightarrow> real \<Rightarrow> nat \<Rightarrow> nat \<Rightarrow> real" where
  "mode_term s x y z c m =
     2 * sol_weight_norm s * ampl s m *
       (aka s c m * cos (phase_angle s x y z m) - akb s c m * sin (phase_angle s x y z m))"

text \<open>The state and the seed left by one call of \<open>TurbGen_grn\<close>, respectively of
  \<open>TurbGen_ran1s\<close>, and the deviate returned by the call number \<open>i\<close> (from 0) of
  \<open>TurbGen_grn\<close> in a row of calls that starts in state \<open>s\<close>.\<close>

definition grn_state :: "globals \<Rightarrow> globals" where
  "grn_state s = snd (TurbGen_grn s)"

definition nth_grn :: "globals \<Rightarrow> nat \<Rightarrow> real" where
  "nth_grn s i = fst (TurbGen_grn ((grn_state ^^ i) s))"

definition ran1s_state :: "int \<Rightarrow> int" where
  "ran1s_state idum = snd (TurbGen_ran1s idum)"

text \<open>For mode \<open>i\<close>: the squared wavenumber and the two projections summed over the first
  \<open>ndim\<close> axes, and the values the decomposition assigns to \<open>aka[j][i]\<close> and
  \<open>akb[j][i]\<close>.\<close>

definition k_sq :: "globals \<Rightarrow> nat \<Rightarrow> real" where
  "k_sq s i = (\<Sum>j<nat (ndim s). mode s j i * mode s j i)"

definition proj_a :: "globals \<Rightarrow> nat \<Rightarrow> real" where
  "proj_a s i = (\<Sum>j<nat (ndim s). mode s j i * OUphases s (6 * i + 2 * j + 1))"

definition proj_b :: "globals \<Rightarrow> nat \<Rightarrow> real" where
  "proj_b s i = (\<Sum>j<nat (ndim s). mode s j i * OUphases s (6 * i + 2 * j))"

definition aka_value :: "globals \<Rightarrow> nat \<Rightarrow> nat \<Rightarrow> real" where
  "aka_value s j i =
     sol_weight s * (OUphases s (6 * i + 2 * j) - mode s j i * proj_b s i / k_sq s i)
     + (1 - sol_weight s) * (mode s j i * proj_b s i / k_sq s i)"

definition akb_value :: "globals \<Rightarrow> nat \<Rightarrow> nat \<Rightarrow> real" where
  "akb_value s j i =
     sol_weight s * (OUphases s (6 * i + 2 * j + 1) - mode s j i * proj_a s i / k_sq s i)
     + (1 - sol_weight s) * (mode s j i * proj_a s i / k_sq s i)"

text \<open>The value of the local variable \<^verbatim>\<open>step_requested\<close> in a call of
  \<^verbatim>\<open>TurbGen_check_for_update(time)\<close>.\<close>

definition requested_step :: "real \<Rightarrow> globals \<Rightarrow> int" where
  "requested_step time s = double_to_int (real_of_int \<lfloor>round_double (time / dt s)\<rfloor>)"

text \<open>A sequence of calls of \<open>TurbGen_check_for_update\<close>, one per host time, keeping
  the state.\<close>

definition run_updates :: "real list \<Rightarrow> globals \<Rightarrow> globals" where
  "run_updates ts s = fold (\<lambda>time s. snd (TurbGen_check_for_update time s)) ts s"

text \<open>The static storage when the program starts: \<^verbatim>\<open>tgd\<close> is zero-initialised, the
  static variables of \<^verbatim>\<open>TurbGen_ran2\<close> have their initialisers.\<close>

definition tgd_start :: globals where
  "tgd_start =
    \<lparr>debug = False, PE = 0, parameter_file = [], n_modes = 0, OUvar = 0,
     mode = (\<lambda>j i. 0), aka = (\<lambda>j i. 0), akb = (\<lambda>j i. 0), OUphases = (\<lambda>i. 0), ampl = (\<lambda>i. 0),
     ndim = 0, random_seed = 0, seed = 0, spect_form = 0, nsteps_per_turnover_time = 0, step = 0,
     xmin = 0, xmax = 0, ymin = 0, ymax = 0, zmin = 0, zmax = 0, Lx = 0,
     decay = 0, dt = 0, energy = 0, stir_min = 0, stir_max = 0,
     sol_weight = 0, sol_weight_norm = 0, velocity = 0, power_law_exp = 0, angles_exp = 0,
     ran2 = \<lparr>idum2 = 123456789, iy = 0, iv = (\<lambda>j. 0)\<rparr>\<rparr>"

text \<open>A state with one mode, of wavevector \<open>(1, 2, 2)\<close>, phases \<open>0, 1, ..., 5\<close> and
  solenoidal weight \<open>w\<close>.\<close>

definition one_mode_state :: "real \<Rightarrow> globals" where
  "one_mode_state w =
    tgd_start\<lparr>n_modes := 1, ndim := 3, sol_weight := w,
      mode := (\<lambda>j i. if i = 0 then (if j = 0 then 1 else 2) else 0),
      OUphases := (\<lambda>i. real i)\<rparr>"

text \<open>The one-mode state with a positive seed and the parameters of the Ornstein-Uhlenbeck
  process set.\<close>

definition seeded_state :: globals where
  "seeded_state = (one_mode_state 1)\<lparr>seed := 140281, OUvar := 1, decay := 1, dt := 1 / 10\<rparr>"

subsection \<open>Invariants of the mode set builder\<close>

text \<open>The wavenumber of the stored mode \<open>i\<close>; the fields the builder only reads; and what
  holds of a state \<open>s\<close> during the generation that started in \<open>s0\<close>: the modes stored so
  far, at the indices up to the running index \<open>n_modes\<close>, lie in the band and vanish on the
  axes beyond \<open>ndim\<close>, and the entries above the index are untouched. \<open>result_ok\<close> is the
  same for a run that may have ended in \<^verbatim>\<open>exit(-1)\<close>.\<close>

definition wavenumber :: "globals \<Rightarrow> nat \<Rightarrow> real" where
  "wavenumber s i = sqrt (mode s X i * mode s X i + mode s Y i * mode s Y i + mode s Z i * mode s Z i)"

definition same_config :: "globals \<Rightarrow> globals \<Rightarrow> bool" where
  "same_config s0 s =
    (ndim s = ndim s0 \<and> spect_form s = spect_form s0 \<and> stir_min s = stir_min s0 \<and>
     stir_max s = stir_max s0 \<and> step s = step s0 \<and>
     xmin s = xmin s0 \<and> xmax s = xmax s0 \<and> ymin s = ymin s0 \<and> ymax s = ymax s0 \<and>
     zmin s = zmin s0 \<and> zmax s = zmax s0)"

definition modes_ok :: "globals \<Rightarrow> globals \<Rightarrow> bool" where
  "modes_ok s0 s =
    (same_config s0 s \<and> - 1 \<le> n_modes s \<and>
     (\<forall>i. int i \<le> n_modes s \<longrightarrow>
        stir_min s0 \<le> wavenumber s i \<and> wavenumber s i \<le> stir_max s0 \<and>
        (ndim s0 \<le> 1 \<longrightarrow> mode s Y i = 0) \<and> (ndim s0 \<le> 2 \<longrightarrow> mode s Z i = 0)) \<and>
     (\<forall>i j. n_modes s < int i \<longrightarrow> ampl s i = ampl s0 i \<and> mode s j i = mode s0 j i))"

definition result_ok :: "globals \<Rightarrow> error + globals \<Rightarrow> bool" where
  "result_ok s0 r = (case r of Inl e \<Rightarrow> True | Inr s \<Rightarrow> modes_ok s0 s)"

subsection \<open>The mode set of the Band and Parabola forms, as the specification describes it\<close>

text \<open>Written from the specification, to be compared with the loops of the code: all
  lattice wavevectors \<open>2\<pi> * (ikx, iky, ikz) / L\<close> with components of the index in \<open>[0, 256]\<close>
  (only 0 on the axes beyond the dimensionality) are enumerated, in the order \<open>ikx\<close>,
  \<open>iky\<close>, \<open>ikz\<close>, and those whose magnitude lies in the band are retained.\<close>

definition in_band :: "globals \<Rightarrow> real \<times> real \<times> real \<Rightarrow> bool" where
  "in_band s v =
    (case v of (kx, ky, kz) \<Rightarrow>
      stir_min s \<le> sqrt (kx * kx + ky * ky + kz * kz) \<and> sqrt (kx * kx + ky * ky + kz * kz) \<le> stir_max s)"

definition mirror_multiplicity :: "int \<Rightarrow> int" where
  "mirror_multiplicity d = 1 + (if d > 1 then 1 else 0) + (if d > 2 then 2 else 0)"

definition retained_ikz :: "globals \<Rightarrow> real \<Rightarrow> real \<Rightarrow> int list \<Rightarrow> (real \<times> real \<times> real) list" where
  "retained_ikz s kx ky ikzs =
    filter (in_band s) (map (\<lambda>ikz. (kx, ky, 2 * pi * real_of_int ikz / (zmax s - zmin s))) ikzs)"

definition retained_iky :: "globals \<Rightarrow> real \<Rightarrow> int list \<Rightarrow> int list \<Rightarrow> (real \<times> real \<times> real) list" where
  "retained_iky s kx ikys ikzs =
    concat (map (\<lambda>iky. retained_ikz s kx (2 * pi * real_of_int iky / (ymax s - ymin s)) ikzs) ikys)"

definition retained_ikx :: "globals \<Rightarrow> int list \<Rightarrow> int list \<Rightarrow> int list \<Rightarrow> (real \<times> real \<times> real) list" where
  "retained_ikx s ikxs ikys ikzs =
    concat (map (\<lambda>ikx. retained_iky s (2 * pi * real_of_int ikx / (xmax s - xmin s)) ikys ikzs) ikxs)"

definition retained_wavevectors :: "globals \<Rightarrow> (real \<times> real \<times> real) list" where
  "retained_wavevectors s =
    retained_ikx s [0..256] [0..(if ndim s > 1 then 256 else 0)] [0..(if ndim s > 2 then 256 else 0)]"

text \<open>Each retained wavevector contributes itself, for more than one dimension its mirror
  image along \<open>y\<close>, and for three dimensions the two images with \<open>z\<close> reversed:
  \<open>2 ^ (dim - 1)\<close> modes, counted by \<open>mirror_multiplicity\<close>. \<open>mode_list\<close> is the resulting
  sequence of modes.\<close>

definition mirrors :: "int \<Rightarrow> real \<times> real \<times> real \<Rightarrow> (real \<times> real \<times> real) list" where
  "mirrors d v =
    (case v of (kx, ky, kz) \<Rightarrow>
      [(kx, ky, kz)] @ (if d > 1 then [(kx, - ky, kz)] else [])
        @ (if d > 2 then [(kx, ky, - kz), (kx, - ky, - kz)] else []))"

definition mode_list :: "globals \<Rightarrow> (real \<times> real \<times> real) list" where
  "mode_list s = concat (map (mirrors (ndim s)) (retained_wavevectors s))"

text \<open>The amplitude of a mode of wavevector \<open>v\<close>: 1 for the Band form,
  \<open>\<bar>- 4 / (k_max - k_min)\<^sup>2 * (k - kc)\<^sup>2 + 1\<bar>\<close> for the Parabola form with \<open>kc\<close> the midpoint of
  the band, scaled by \<open>sqrt (amplitude) * (kc / k) ^ ((dim - 1) / 2)\<close>.\<close>

definition band_amplitude :: "globals \<Rightarrow> real \<times> real \<times> real \<Rightarrow> real" where
  "band_amplitude s v =
    (case v of (kx, ky, kz) \<Rightarrow>
      (let k = sqrt (kx * kx + ky * ky + kz * kz);
           kc = (if spect_form s = 1 then (1 / 2) * (stir_min s + stir_max s) else stir_min s);
           amplitude = (if spect_form s = 0 then 1
                        else \<bar>(- 4 / c_pow (stir_max s - stir_min s) 2) * c_pow (k - kc) 2 + 1\<bar>)
       in sqrt amplitude * c_pow (kc / k) (real_of_int (ndim s - 1) / 2)))"

text \<open>The link between the two: during the generating pass the state holds the list \<open>L\<close>
  of modes at the indices below \<open>length L\<close>, with their amplitudes, the running index is
  \<open>length L - 1\<close>, and the entries from \<open>length L\<close> on are those of the starting state.\<close>

definition gen_inv :: "globals \<Rightarrow> (real \<times> real \<times> real) list \<Rightarrow> globals \<Rightarrow> bool" where
  "gen_inv s0 L s =
    (same_config s0 s \<and> n_modes s = int (length L) - 1 \<and>
     (\<forall>i<length L. (mode s X i, mode s Y i, mode s Z i) = L ! i \<and> ampl s i = band_amplitude s0 (L ! i)) \<and>
     (\<forall>i j. length L \<le> i \<longrightarrow> ampl s i = ampl s0 i \<and> mode s j i = mode s0 j i))"

subsection \<open>Example states\<close>

text \<open>A one-dimensional Band configuration on a box of length \<open>2\<pi>\<close> with the band
  \<open>[1, 2]\<close>, the state the mode set builder leaves from it (the modes \<open>(1, 0, 0)\<close> and
  \<open>(2, 0, 0)\<close> with amplitude 1), and a parameter set for a one-dimensional Band run.\<close>

definition band_state :: globals where
  "band_state = tgd_start\<lparr>ndim := 1, spect_form := 0, xmax := 2 * pi, ymax := 1, zmax := 1,
     stir_min := 1, stir_max := 2\<rparr>"

definition band_modes :: globals where
  "band_modes =
     band_state\<lparr>n_modes := 2, ampl := (ampl band_state)(0 := 1, 1 := 1),
       mode := (mode band_state)(0 := (mode band_state 0)(0 := 1, 1 := 2),
                                 1 := (mode band_state 1)(0 := 0, 1 := 0),
                                 2 := (mode band_state 2)(0 := 0, 1 := 0))\<rparr>"

text \<open>A state in which only the time step and the step counter are set, and the doubles
  that the literals \<^verbatim>\<open>0.85\<close> and \<^verbatim>\<open>0.05\<close> denote.\<close>

definition clock_state :: "real \<Rightarrow> int \<Rightarrow> globals" where
  "clock_state dt0 step0 = tgd_start\<lparr>dt := dt0, step := step0\<rparr>"

definition double_0_85 :: real where
  "double_0_85 = 7656119366529843 / 9007199254740992"

definition double_0_05 :: real where
  "double_0_05 = 3602879701896397 / 72057594037927936"

definition example_parameters :: parameters where
  "example_parameters =
    \<lparr>par_ndim = 1, par_xmin = 0, par_xmax = 1, par_ymin = 0, par_ymax = 1, par_zmin = 0, par_zmax = 1,
     par_velocity = 1, par_k_driv = 2, par_k_min = 1, par_k_max = 3, par_sol_weight = 1 / 2,
     par_spect_form = 0, par_power_law_exp = - 2, par_angles_exp = 2, par_energy_coeff = 5 / 1000,
     par_random_seed = 140281, par_nsteps_per_turnover_time = 10\<rparr>"

section \<open>Properties\<close>

subsection \<open>The field evaluator is the truncated Fourier series\<close>

lemma trig_tables_fold:
  "fold (trig_tables_body s x y z) [0..<n] t0 =
     t0\<lparr>sinx := (\<lambda>m. if m < n then sin (mode s X m * x) else sinx t0 m),
        cosx := (\<lambda>m. if m < n then cos (mode s X m * x) else cosx t0 m),
        siny := (\<lambda>m. if m < n then sin (mode s Y m * y) else siny t0 m),
        cosy := (\<lambda>m. if m < n then cos (mode s Y m * y) else cosy t0 m),
        sinz := (\<lambda>m. if m < n then sin (mode s Z m * z) else sinz t0 m),
        cosz := (\<lambda>m. if m < n then cos (mode s Z m * z) else cosz t0 m)\<rparr>"
  (is "?lhs n = ?rhs n")
proof (induction n)
  case 0
  show ?case by simp
next
  case (Suc n)
  have "fold (trig_tables_body s x y z) [0..<Suc n] t0 =
      trig_tables_body s x y z n (fold (trig_tables_body s x y z) [0..<n] t0)"
    by simp
  also have "\<dots> = ?rhs (Suc n)"
    unfolding Suc by (simp add: trig_tables_body_def fun_eq_iff less_Suc_eq)
  finally show ?case .
qed

text \<open>One pass of the second loop: the two angle-addition expressions of the code are the
  cosine and the sine of the full phase.\<close>

lemma turb_vector_body_exact:
  assumes "sinx t m = sin (mode s X m * x)" "cosx t m = cos (mode s X m * x)"
    "siny t m = sin (mode s Y m * y)" "cosy t m = cos (mode s Y m * y)"
    "sinz t m = sin (mode s Z m * z)" "cosz t m = cos (mode s Z m * z)"
  shows "turb_vector_body s t m (vx, vy, vz) =
    (vx + mode_term s x y z X m, vy + mode_term s x y z Y m, vz + mode_term s x y z Z m)"
proof -
  have c: "(cosx t m * cosy t m - sinx t m * siny t m) * cosz t m
        - (sinx t m * cosy t m + cosx t m * siny t m) * sinz t m = cos (phase_angle s x y z m)"
    unfolding assms phase_angle_def by (simp add: cos_add sin_add algebra_simps)
  have d: "cosx t m * (cosy t m * sinz t m + siny t m * cosz t m)
        + sinx t m * (cosy t m * cosz t m - siny t m * sinz t m) = sin (phase_angle s x y z m)"
    unfolding assms phase_angle_def by (simp add: cos_add sin_add algebra_simps)
  show ?thesis
    unfolding turb_vector_body_def mode_term_def by (simp only: c d Let_def prod.case)
qed

lemma turb_vector_fold:
  assumes "\<And>m. m < n \<Longrightarrow> sinx t m = sin (mode s X m * x) \<and> cosx t m = cos (mode s X m * x)
      \<and> siny t m = sin (mode s Y m * y) \<and> cosy t m = cos (mode s Y m * y)
      \<and> sinz t m = sin (mode s Z m * z) \<and> cosz t m = cos (mode s Z m * z)"
  shows "fold (turb_vector_body s t) [0..<n] (0, 0, 0) =
    (\<Sum>m<n. mode_term s x y z X m, \<Sum>m<n. mode_term s x y z Y m, \<Sum>m<n. mode_term s x y z Z m)"
  using assms
proof (induction n)
  case 0
  show ?case by simp
next
  case (Suc n)
  have "fold (turb_vector_body s t) [0..<n] (0, 0, 0) =
    (\<Sum>m<n. mode_term s x y z X m, \<Sum>m<n. mode_term s x y z Y m, \<Sum>m<n. mode_term s x y z Z m)"
    using Suc.IH Suc.prems by simp
  moreover have "turb_vector_body s t n (vx, vy, vz) =
    (vx + mode_term s x y z X n, vy + mode_term s x y z Y n, vz + mode_term s x y z Z n)" for vx vy vz
    using Suc.prems [of n] by (intro turb_vector_body_exact) simp_all
  ultimately show ?case by simp
qed

text \<open>
  Claim C1. For every position \<open>(x, y, z)\<close>, every state and every content of the local
  tables on entry, \<^verbatim>\<open>TurbGen_get_turb_vector\<close> returns, in each component \<open>c\<close> of
  \<open>X, Y, Z\<close>, the sum over the modes \<open>m < n_modes\<close> of
  \<open>2 * sol_weight_norm * ampl[m] * (aka[c][m] * cos (k\<^sub>m \<cdot> x) - akb[c][m] * sin (k\<^sub>m \<cdot> x))\<close>,
  where \<open>k\<^sub>m \<cdot> x = kx*x + ky*y + kz*z\<close>: the code's expressions for \<^verbatim>\<open>real\<close> and
  \<^verbatim>\<open>imag\<close>, built from the per-axis sines and cosines, are the cosine and sine of that
  sum.
\<close>

theorem get_turb_vector_fourier_sum:
  "TurbGen_get_turb_vector t0 s x y z =
    (\<Sum>m<nat (n_modes s). 2 * sol_weight_norm s * ampl s m *
        (aka s X m * cos (mode s X m * x + mode s Y m * y + mode s Z m * z)
         - akb s X m * sin (mode s X m * x + mode s Y m * y + mode s Z m * z)),
     \<Sum>m<nat (n_modes s). 2 * sol_weight_norm s * ampl s m *
        (aka s Y m * cos (mode s X m * x + mode s Y m * y + mode s Z m * z)
         - akb s Y m * sin (mode s X m * x + mode s Y m * y + mode s Z m * z)),
     \<Sum>m<nat (n_modes s). 2 * sol_weight_norm s * ampl s m *
        (aka s Z m * cos (mode s X m * x + mode s Y m * y + mode s Z m * z)
         - akb s Z m * sin (mode s X m * x + mode s Y m * y + mode s Z m * z)))"
proof -
  have "fold (turb_vector_body s (fold (trig_tables_body s x y z) [0..<nat (n_modes s)] t0))
          [0..<nat (n_modes s)] (0, 0, 0) =
    (\<Sum>m<nat (n_modes s). mode_term s x y z X m, \<Sum>m<nat (n_modes s). mode_term s x y z Y m,
     \<Sum>m<nat (n_modes s). mode_term s x y z Z m)"
    by (rule turb_vector_fold) (simp add: trig_tables_fold)
  then show ?thesis
    by (simp add: TurbGen_get_turb_vector_def mode_term_def phase_angle_def)
qed

subsection \<open>One Ornstein-Uhlenbeck advance\<close>

lemma grn_state_eq: "grn_state s = s\<lparr>seed := ran1s_state (ran1s_state (seed s))\<rparr>"
  by (simp add: grn_state_def TurbGen_grn_def ran1s_state_def split_beta Let_def)

lemma grn_state_funpow: "(grn_state ^^ n) s = s\<lparr>seed := (ran1s_state ^^ (2 * n)) (seed s)\<rparr>"
  by (induction n) (simp_all add: grn_state_eq)

lemma seed_grn_state: "seed (grn_state s) = ran1s_state (ran1s_state (seed s))"
  by (simp add: grn_state_eq)

lemma seed_grn_state_funpow: "seed ((grn_state ^^ n) s) = (ran1s_state ^^ (2 * n)) (seed s)"
  by (simp add: grn_state_funpow)

lemma grn_value_seed: "seed s = seed s' \<Longrightarrow> fst (TurbGen_grn s) = fst (TurbGen_grn s')"
  by (simp add: TurbGen_grn_def split_beta Let_def)

lemma OU_noise_update_body_eq:
  "OU_noise_update_body f i s =
     s\<lparr>OUphases := (OUphases s)(i := OUphases s i * f + sqrt (1 - f * f) * OUvar s * fst (TurbGen_grn s)),
       seed := seed (grn_state s)\<rparr>"
  by (simp add: OU_noise_update_body_def TurbGen_grn_def grn_state_def split_beta Let_def)

lemma OU_noise_update_fold:
  "fold (OU_noise_update_body f) [0..<n] s =
     s\<lparr>OUphases := (\<lambda>i. if i < n then OUphases s i * f + sqrt (1 - f * f) * OUvar s * nth_grn s i
                         else OUphases s i),
       seed := seed ((grn_state ^^ n) s)\<rparr>"
proof (induction n)
  case 0
  show ?case by simp
next
  case (Suc n)
  let ?t = "fold (OU_noise_update_body f) [0..<n] s"
  have g: "fst (TurbGen_grn ?t) = nth_grn s n"
    unfolding nth_grn_def by (rule grn_value_seed) (simp add: Suc seed_grn_state_funpow)
  have sd: "seed (grn_state ?t) = seed ((grn_state ^^ Suc n) s)"
    by (simp add: Suc seed_grn_state seed_grn_state_funpow)
  have "fold (OU_noise_update_body f) [0..<Suc n] s = OU_noise_update_body f n ?t"
    by simp
  also have "\<dots> = ?t\<lparr>OUphases := (OUphases ?t)(n := OUphases ?t n * f + sqrt (1 - f * f) * OUvar ?t * nth_grn s n),
       seed := seed ((grn_state ^^ Suc n) s)\<rparr>"
    by (simp only: OU_noise_update_body_eq g sd)
  also have "\<dots> = s\<lparr>OUphases := (\<lambda>i. if i < Suc n then OUphases s i * f + sqrt (1 - f * f) * OUvar s * nth_grn s i
                         else OUphases s i),
       seed := seed ((grn_state ^^ Suc n) s)\<rparr>"
    unfolding Suc by (simp add: fun_eq_iff less_Suc_eq)
  finally show ?case .
qed

lemma OU_noise_update_step:
  "(fold (OU_noise_update_body f) [0..<n] s)\<lparr>step := step (fold (OU_noise_update_body f) [0..<n] s) + 1\<rparr> =
     s\<lparr>OUphases := (\<lambda>i. if i < n then OUphases s i * f + sqrt (1 - f * f) * OUvar s * nth_grn s i
                         else OUphases s i),
       seed := seed ((grn_state ^^ n) s),
       step := step s + 1\<rparr>"
  by (simp add: OU_noise_update_fold)

text \<open>
  Claim C5. One call of \<^verbatim>\<open>TurbGen_OU_noise_update\<close> replaces each of the \<open>6 * n_modes\<close>
  phase slots \<open>i\<close> by \<open>phase * f + sqrt (1 - f\<^sup>2) * OUvar * g\<close>, with \<open>f = exp (- dt / decay)\<close>
  and \<open>g\<close> the deviate returned by the call of \<open>TurbGen_grn\<close> made for that slot (the call
  number \<open>i\<close> of the advance), leaves the seed where these \<open>6 * n_modes\<close> calls leave it,
  increments \<open>step\<close> by exactly 1, and changes nothing else.
\<close>

theorem OU_noise_update_exact:
  "TurbGen_OU_noise_update s =
     (let f = exp (- dt s / decay s) in
      s\<lparr>OUphases := (\<lambda>i. if i < nat (6 * n_modes s)
                          then OUphases s i * f + sqrt (1 - f * f) * OUvar s * nth_grn s i
                          else OUphases s i),
        seed := seed ((grn_state ^^ nat (6 * n_modes s)) s),
        step := step s + 1\<rparr>)"
  unfolding TurbGen_OU_noise_update_def Let_def by (rule OU_noise_update_step)

lemma OU_noise_update_frame:
  "step (TurbGen_OU_noise_update s) = step s + 1"
  "dt (TurbGen_OU_noise_update s) = dt s"
  "n_modes (TurbGen_OU_noise_update s) = n_modes s"
  "ran2 (TurbGen_OU_noise_update s) = ran2 s"
  by (simp_all add: TurbGen_OU_noise_update_def OU_noise_update_fold Let_def)

subsection \<open>The loop of advances\<close>

lemma OU_seek_funpow:
  "OU_seek is step_requested s = (TurbGen_OU_noise_update ^^ nat (step_requested - is)) s"
proof (induction "is" step_requested s rule: OU_seek.induct)
  case (1 "is" step_requested s)
  show ?case
  proof (cases "is < step_requested")
    case True
    then have n: "nat (step_requested - is) = Suc (nat (step_requested - (is + 1)))"
      by simp
    show ?thesis
      using True "1.IH" [OF True] by (subst OU_seek.simps) (simp add: n funpow_swap1)
  next
    case False
    then show ?thesis by (subst OU_seek.simps) simp
  qed
qed

lemma OU_funpow_frame:
  "step ((TurbGen_OU_noise_update ^^ n) s) = step s + int n"
  "dt ((TurbGen_OU_noise_update ^^ n) s) = dt s"
  by (induction n) (simp_all add: OU_noise_update_frame)

text \<open>While the loop runs, the counter stays between its old value and the requested
  step.\<close>

lemma OU_seek_steps_in_range:
  assumes "n \<le> nat (step_requested - step s)"
  shows "step s \<le> step ((TurbGen_OU_noise_update ^^ n) s)"
    and "step ((TurbGen_OU_noise_update ^^ n) s) \<le> max (step s) step_requested"
  using assms by (simp_all add: OU_funpow_frame)

subsection \<open>The decomposition\<close>

lemma decomposition_sums_fold:
  "fold (decomposition_sums_body s i) [0..<n] (a, b, c) =
     (a + (\<Sum>j<n. mode s j i * OUphases s (6 * i + 2 * j + 1)),
      b + (\<Sum>j<n. mode s j i * OUphases s (6 * i + 2 * j)),
      c + (\<Sum>j<n. mode s j i * mode s j i))"
  by (induction n) (simp_all add: decomposition_sums_body_def)

lemma decomposition_write_fold:
  "fold (decomposition_write_body ka kb kk i) [0..<n] s =
     s\<lparr>aka := (\<lambda>j. if j < n
                   then (aka s j)(i := sol_weight s * (OUphases s (6 * i + 2 * j) - mode s j i * kb / kk)
                                       + (1 - sol_weight s) * (mode s j i * kb / kk))
                   else aka s j),
       akb := (\<lambda>j. if j < n
                   then (akb s j)(i := sol_weight s * (OUphases s (6 * i + 2 * j + 1) - mode s j i * ka / kk)
                                       + (1 - sol_weight s) * (mode s j i * ka / kk))
                   else akb s j)\<rparr>"
  (is "?lhs n = ?rhs n")
proof (induction n)
  case 0
  show ?case by simp
next
  case (Suc n)
  have "?lhs (Suc n) = decomposition_write_body ka kb kk i n (?lhs n)"
    by simp
  also have "\<dots> = ?rhs (Suc n)"
    unfolding Suc by (simp add: decomposition_write_body_def fun_eq_iff less_Suc_eq)
  finally show ?case .
qed

lemma decomposition_mode_body_eq:
  "decomposition_mode_body i s =
     s\<lparr>aka := (\<lambda>j. if j < nat (ndim s) then (aka s j)(i := aka_value s j i) else aka s j),
       akb := (\<lambda>j. if j < nat (ndim s) then (akb s j)(i := akb_value s j i) else akb s j)\<rparr>"
  by (simp add: decomposition_mode_body_def decomposition_sums_fold decomposition_write_fold
      aka_value_def akb_value_def proj_a_def proj_b_def k_sq_def cong: if_cong)

lemma aka_value_frame [simp]:
  "aka_value (s\<lparr>aka := a, akb := b\<rparr>) = aka_value s"
  "akb_value (s\<lparr>aka := a, akb := b\<rparr>) = akb_value s"
  by (simp_all add: fun_eq_iff aka_value_def akb_value_def proj_a_def proj_b_def k_sq_def)

lemma decomposition_fold:
  "fold decomposition_mode_body [0..<n] s =
     s\<lparr>aka := (\<lambda>j i. if j < nat (ndim s) \<and> i < n then aka_value s j i else aka s j i),
       akb := (\<lambda>j i. if j < nat (ndim s) \<and> i < n then akb_value s j i else akb s j i)\<rparr>"
  (is "?lhs n = ?rhs n")
proof (induction n)
  case 0
  show ?case by simp
next
  case (Suc n)
  have "?lhs (Suc n) = decomposition_mode_body n (?lhs n)"
    by simp
  also have "\<dots> = ?rhs (Suc n)"
    by (simp only: Suc) (simp add: decomposition_mode_body_eq fun_eq_iff less_Suc_eq cong: if_cong)
  finally show ?case .
qed

lemma get_decomposition_coeffs_eq:
  "TurbGen_get_decomposition_coeffs s =
     s\<lparr>aka := (\<lambda>j i. if j < nat (ndim s) \<and> i < nat (n_modes s) then aka_value s j i else aka s j i),
       akb := (\<lambda>j i. if j < nat (ndim s) \<and> i < nat (n_modes s) then akb_value s j i else akb s j i)\<rparr>"
  by (simp add: TurbGen_get_decomposition_coeffs_def decomposition_fold)

lemma get_decomposition_coeffs_frame:
  "step (TurbGen_get_decomposition_coeffs s) = step s"
  "dt (TurbGen_get_decomposition_coeffs s) = dt s"
  "mode (TurbGen_get_decomposition_coeffs s) = mode s"
  "ndim (TurbGen_get_decomposition_coeffs s) = ndim s"
  "n_modes (TurbGen_get_decomposition_coeffs s) = n_modes s"
  "sol_weight (TurbGen_get_decomposition_coeffs s) = sol_weight s"
  "OUphases (TurbGen_get_decomposition_coeffs s) = OUphases s"
  by (simp_all add: get_decomposition_coeffs_eq)

text \<open>
  Claim C4. For every mode \<open>i < n_modes\<close> with a wavevector that is not zero on the first
  \<open>ndim\<close> axes (the divisor \<open>kk\<close> of the code) and every content of the phases: if
  \<open>sol_weight = 1\<close>, the output of \<^verbatim>\<open>TurbGen_get_decomposition_coeffs\<close> satisfies
  \<open>\<Sum> k\<^sub>j * aka[j][i] = 0\<close> and \<open>\<Sum> k\<^sub>j * akb[j][i] = 0\<close>, the sums over the first \<open>ndim\<close>
  axes; if \<open>sol_weight = 0\<close>, then \<open>aka[j][i]\<close> and \<open>akb[j][i]\<close> are the wavevector
  component \<open>k\<^sub>j\<close> times a scalar that is the same for all axes \<open>j < ndim\<close>.
\<close>

theorem decomposition_transverse_longitudinal:
  assumes "i < nat (n_modes s)" and "k_sq s i \<noteq> 0"
  shows "(sol_weight s = 1 \<longrightarrow>
            (\<Sum>j<nat (ndim s). mode s j i * aka (TurbGen_get_decomposition_coeffs s) j i) = 0 \<and>
            (\<Sum>j<nat (ndim s). mode s j i * akb (TurbGen_get_decomposition_coeffs s) j i) = 0) \<and>
         (sol_weight s = 0 \<longrightarrow>
            (\<forall>j<nat (ndim s).
               aka (TurbGen_get_decomposition_coeffs s) j i = (proj_b s i / k_sq s i) * mode s j i \<and>
               akb (TurbGen_get_decomposition_coeffs s) j i = (proj_a s i / k_sq s i) * mode s j i))"
proof (intro conjI impI allI)
  assume w: "sol_weight s = 1"
  have "(\<Sum>j<nat (ndim s). mode s j i * aka (TurbGen_get_decomposition_coeffs s) j i)
      = (\<Sum>j<nat (ndim s). mode s j i * OUphases s (6 * i + 2 * j) - (mode s j i * mode s j i) * (proj_b s i / k_sq s i))"
    using assms(1) w by (intro sum.cong) (simp_all add: get_decomposition_coeffs_eq aka_value_def algebra_simps)
  also have "\<dots> = proj_b s i - k_sq s i * (proj_b s i / k_sq s i)"
    unfolding proj_b_def [of s i] k_sq_def [of s i] by (simp only: sum_subtractf sum_distrib_right)
  also have "\<dots> = 0"
    using assms(2) by simp
  finally show "(\<Sum>j<nat (ndim s). mode s j i * aka (TurbGen_get_decomposition_coeffs s) j i) = 0" .
  have "(\<Sum>j<nat (ndim s). mode s j i * akb (TurbGen_get_decomposition_coeffs s) j i)
      = (\<Sum>j<nat (ndim s). mode s j i * OUphases s (6 * i + 2 * j + 1) - (mode s j i * mode s j i) * (proj_a s i / k_sq s i))"
    using assms(1) w by (intro sum.cong) (simp_all add: get_decomposition_coeffs_eq akb_value_def algebra_simps)
  also have "\<dots> = proj_a s i - k_sq s i * (proj_a s i / k_sq s i)"
    unfolding proj_a_def [of s i] k_sq_def [of s i] by (simp only: sum_subtractf sum_distrib_right)
  also have "\<dots> = 0"
    using assms(2) by simp
  finally show "(\<Sum>j<nat (ndim s). mode s j i * akb (TurbGen_get_decomposition_coeffs s) j i) = 0" .
next
  fix j
  assume "sol_weight s = 0" "j < nat (ndim s)"
  then show "aka (TurbGen_get_decomposition_coeffs s) j i = (proj_b s i / k_sq s i) * mode s j i"
    using assms(1) by (simp add: get_decomposition_coeffs_eq aka_value_def)
next
  fix j
  assume "sol_weight s = 0" "j < nat (ndim s)"
  then show "akb (TurbGen_get_decomposition_coeffs s) j i = (proj_a s i / k_sq s i) * mode s j i"
    using assms(1) by (simp add: get_decomposition_coeffs_eq akb_value_def)
qed

lemma one_mode_k_sq: "k_sq (one_mode_state w) 0 = 9"
  by (simp add: k_sq_def one_mode_state_def tgd_start_def lessThan_nat_numeral lessThan_Suc)

lemma one_mode_proj: "proj_a (one_mode_state w) 0 = 17" "proj_b (one_mode_state w) 0 = 12"
  by (simp_all add: proj_a_def proj_b_def one_mode_state_def tgd_start_def lessThan_nat_numeral lessThan_Suc)

theorem decomposition_transverse_longitudinal_witness:
  "0 < nat (n_modes (one_mode_state 1)) \<and> k_sq (one_mode_state 1) 0 \<noteq> 0 \<and>
   sol_weight (one_mode_state 1) = 1 \<and>
   (\<Sum>j<nat (ndim (one_mode_state 1)).
      mode (one_mode_state 1) j 0 * aka (TurbGen_get_decomposition_coeffs (one_mode_state 1)) j 0) = 0 \<and>
   (\<Sum>j<nat (ndim (one_mode_state 1)).
      mode (one_mode_state 1) j 0 * akb (TurbGen_get_decomposition_coeffs (one_mode_state 1)) j 0) = 0 \<and>
   0 < nat (n_modes (one_mode_state 0)) \<and> k_sq (one_mode_state 0) 0 \<noteq> 0 \<and>
   sol_weight (one_mode_state 0) = 0 \<and>
   aka (TurbGen_get_decomposition_coeffs (one_mode_state 0)) 1 0 = (12 / 9) * 2 \<and>
   akb (TurbGen_get_decomposition_coeffs (one_mode_state 0)) 1 0 = (17 / 9) * 2"
proof -
  have n: "0 < nat (n_modes (one_mode_state w))" "(1::nat) < nat (ndim (one_mode_state w))"
    "sol_weight (one_mode_state w) = w" "mode (one_mode_state w) 1 0 = 2" for w
    by (simp_all add: one_mode_state_def tgd_start_def)
  have k: "k_sq (one_mode_state w) 0 \<noteq> 0" for w
    by (simp add: one_mode_k_sq)
  show ?thesis
    using decomposition_transverse_longitudinal [OF n(1) k, of 1]
      decomposition_transverse_longitudinal [OF n(1) k, of 0] n [of 0] n [of 1] k [of 0] k [of 1]
    by (simp add: one_mode_k_sq one_mode_proj)
qed

subsection \<open>The update check\<close>

text \<open>Rounding to a double, for a number whose binary exponent is known.\<close>

lemma floor_log2_eq:
  assumes "power_int 2 e \<le> x" and "x < power_int 2 (e + 1)"
  shows "\<lfloor>log 2 x\<rfloor> = e"
proof -
  have "(0::real) < power_int 2 e"
    by simp
  then have x: "0 < x"
    using assms(1) by linarith
  have "real_of_int e \<le> log 2 x"
    using assms(1) x by (simp add: le_log_iff powr_real_of_int')
  moreover have "log 2 x < real_of_int (e + 1)"
    using assms(2) x by (simp add: log_less_iff powr_real_of_int' del: of_int_add)
  ultimately show ?thesis
    by (simp add: floor_eq_iff)
qed

lemma round_double_pos:
  assumes "power_int 2 e \<le> x" and "x < power_int 2 (e + 1)" and "- 1022 \<le> e"
  shows "round_double x
    = real_of_int (round_half_even (x / power_int 2 (e - 52))) * power_int 2 (e - 52)"
proof -
  have "(0::real) < power_int 2 e"
    by simp
  then have x: "0 < x"
    using assms(1) by linarith
  show ?thesis
    using x assms(3) by (simp add: round_double_def floor_log2_eq [OF assms(1,2)] Let_def max_def)
qed

lemma round_half_even_int: "round_half_even (real_of_int k) = k"
  by (simp add: round_half_even_def)

lemma round_double_3000000000: "round_double 3000000000 = 3000000000"
proof -
  have "round_double 3000000000
      = real_of_int (round_half_even (3000000000 / power_int 2 (31 - 52))) * power_int 2 (31 - 52)"
    by (rule round_double_pos) (simp_all add: power_int_def power_divide)
  moreover have "round_half_even (3000000000 / power_int 2 (31 - 52)) = 6291456000000000"
    using round_half_even_int [of 6291456000000000] by (simp add: power_int_def power_divide)
  ultimately show ?thesis
    by (simp add: power_int_def power_divide)
qed

text \<open>\<open>double_0_85\<close> and \<open>double_0_05\<close> are the doubles nearest to \<open>0.85\<close> and \<open>0.05\<close>.
  Their exact quotient lies just below 17, and the nearest double to it is 17.\<close>

lemma round_double_0_85: "round_double (85 / 100) = double_0_85"
proof -
  have "round_double (85 / 100)
      = real_of_int (round_half_even (85 / 100 / power_int 2 (- 1 - 52))) * power_int 2 (- 1 - 52)"
    by (rule round_double_pos) (simp_all add: power_int_def power_divide)
  moreover have "\<lfloor>(85::real) / 100 / power_int 2 (- 1 - 52)\<rfloor> = 7656119366529843"
    by (simp add: power_int_def power_divide floor_eq_iff)
  then have "round_half_even (85 / 100 / power_int 2 (- 1 - 52)) = 7656119366529843"
    by (simp add: round_half_even_def power_int_def power_divide)
  ultimately show ?thesis
    by (simp add: power_int_def power_divide double_0_85_def)
qed

lemma round_double_0_05: "round_double (5 / 100) = double_0_05"
proof -
  have "round_double (5 / 100)
      = real_of_int (round_half_even (5 / 100 / power_int 2 (- 5 - 52))) * power_int 2 (- 5 - 52)"
    by (rule round_double_pos) (simp_all add: power_int_def power_divide)
  moreover have "\<lfloor>(5::real) / 100 / power_int 2 (- 5 - 52)\<rfloor> = 7205759403792793"
    by (simp add: power_int_def power_divide floor_eq_iff)
  then have "round_half_even (5 / 100 / power_int 2 (- 5 - 52)) = 7205759403792794"
    by (simp add: round_half_even_def power_int_def power_divide)
  ultimately show ?thesis
    by (simp add: power_int_def power_divide double_0_05_def)
qed

lemma floor_quotient_0_85_0_05: "\<lfloor>double_0_85 / double_0_05\<rfloor> = 16"
  by (simp add: double_0_85_def double_0_05_def floor_eq_iff)

lemma round_double_quotient_0_85_0_05: "round_double (double_0_85 / double_0_05) = 17"
proof -
  let ?q = "double_0_85 / double_0_05"
  have "round_double ?q
      = real_of_int (round_half_even (?q / power_int 2 (4 - 52))) * power_int 2 (4 - 52)"
    by (rule round_double_pos) (simp_all add: power_int_def power_divide double_0_85_def double_0_05_def)
  moreover have "\<lfloor>?q / power_int 2 (4 - 52)\<rfloor> = 4785074604081151"
    by (simp add: power_int_def power_divide floor_eq_iff double_0_85_def double_0_05_def)
  then have "round_half_even (?q / power_int 2 (4 - 52)) = 4785074604081152"
    by (simp add: round_half_even_def power_int_def power_divide double_0_85_def double_0_05_def)
  ultimately show ?thesis
    by (simp add: power_int_def power_divide)
qed

text \<open>The conversion to \<^verbatim>\<open>int\<close> of a double with an integer value.\<close>

lemma double_to_int_of_int:
  "double_to_int (real_of_int k)
    = (if - 2147483648 \<le> k \<and> k \<le> 2147483647 then k else - 2147483648)"
  by (simp add: double_to_int_def c_trunc_def)

lemma requested_step_in_range:
  assumes "- 2147483648 \<le> \<lfloor>round_double (time / dt s)\<rfloor>"
    and "\<lfloor>round_double (time / dt s)\<rfloor> \<le> 2147483647"
  shows "requested_step time s = \<lfloor>round_double (time / dt s)\<rfloor>"
  using assms by (simp add: requested_step_def double_to_int_of_int)

lemma check_for_update_eq:
  "TurbGen_check_for_update time s =
    (if step s < requested_step time s
     then (True, TurbGen_get_decomposition_coeffs
                   ((TurbGen_OU_noise_update ^^ nat (requested_step time s - step s)) s))
     else (False, s))"
  by (simp add: TurbGen_check_for_update_def requested_step_def OU_seek_funpow Let_def not_less)

lemma check_for_update_step:
  "step (snd (TurbGen_check_for_update time s)) = max (step s) (requested_step time s)"
  by (simp add: check_for_update_eq get_decomposition_coeffs_frame OU_funpow_frame)

lemma check_for_update_dt:
  "dt (snd (TurbGen_check_for_update time s)) = dt s"
  by (simp add: check_for_update_eq get_decomposition_coeffs_frame OU_funpow_frame)

lemma requested_step_after:
  "requested_step time (snd (TurbGen_check_for_update time s)) = requested_step time s"
  by (simp add: requested_step_def check_for_update_dt)

lemma clock_state_fields: "dt (clock_state dt0 step0) = dt0" "step (clock_state dt0 step0) = step0"
  by (simp_all add: clock_state_def)

text \<open>
  The claim C2 as it is written fails, in two ways. The requested step is converted to a
  32-bit \<^verbatim>\<open>int\<close>: with \<open>dt = 1\<close> and the counter at \<open>-1\<close>, the time \<open>3000000000\<close> has
  \<open>floor (t / dt) = 3000000000\<close>, above the counter, and the call returns false and leaves
  the state as it is. The quotient is a rounded one: with \<open>dt\<close> the double \<open>0.05\<close>, the
  counter at 16 and the time the double \<open>0.85\<close>, \<open>floor (t / dt)\<close> is 16, not above the counter,
  while the quotient of the two doubles is the double 17, and the call returns true,
  after one advance, with the counter at 17.
\<close>

theorem check_for_update_floor_counterexample:
  "step (clock_state 1 (- 1)) = - 1 \<and>
   \<lfloor>3000000000 / dt (clock_state 1 (- 1))\<rfloor> = 3000000000 \<and>
   TurbGen_check_for_update 3000000000 (clock_state 1 (- 1)) = (False, clock_state 1 (- 1)) \<and>
   step (clock_state double_0_05 16) = 16 \<and>
   \<lfloor>double_0_85 / dt (clock_state double_0_05 16)\<rfloor> = 16 \<and>
   TurbGen_check_for_update double_0_85 (clock_state double_0_05 16)
     = (True, TurbGen_get_decomposition_coeffs
                (TurbGen_OU_noise_update (clock_state double_0_05 16))) \<and>
   step (snd (TurbGen_check_for_update double_0_85 (clock_state double_0_05 16))) = 17"
proof -
  have a: "requested_step 3000000000 (clock_state 1 (- 1)) = - 2147483648"
    using double_to_int_of_int [of 3000000000]
    by (simp add: requested_step_def clock_state_fields round_double_3000000000)
  have b: "requested_step double_0_85 (clock_state double_0_05 16) = 17"
    using double_to_int_of_int [of 17]
    by (simp add: requested_step_def clock_state_fields round_double_quotient_0_85_0_05)
  have "TurbGen_check_for_update 3000000000 (clock_state 1 (- 1)) = (False, clock_state 1 (- 1))"
    by (simp add: check_for_update_eq a clock_state_fields)
  moreover have "TurbGen_check_for_update double_0_85 (clock_state double_0_05 16)
     = (True, TurbGen_get_decomposition_coeffs
                (TurbGen_OU_noise_update (clock_state double_0_05 16)))"
    by (simp add: check_for_update_eq b clock_state_fields)
  moreover have "step (snd (TurbGen_check_for_update double_0_85 (clock_state double_0_05 16))) = 17"
    by (simp add: check_for_update_step b clock_state_fields)
  ultimately show ?thesis
    by (simp add: clock_state_fields floor_quotient_0_85_0_05)
qed

text \<open>
  Claim C2, amended. Let \<open>q\<close> be the requested step that the code computes, the floor of
  the double nearest to \<open>t / dt\<close>. For every time \<open>t\<close> whose \<open>q\<close> fits a 32-bit \<^verbatim>\<open>int\<close>,
  \<^verbatim>\<open>TurbGen_check_for_update(t)\<close> returns true if and only if \<open>q\<close> is greater than the step
  counter; it then leaves the state reached by \<open>q - step\<close> successive calls of
  \<^verbatim>\<open>TurbGen_OU_noise_update\<close> followed by one call of \<^verbatim>\<open>TurbGen_get_decomposition_coeffs\<close>,
  in which \<open>step = q\<close>; when it returns false the state is the one it was called in.
\<close>

theorem check_for_update_requested_step:
  assumes "- 2147483648 \<le> \<lfloor>round_double (time / dt s)\<rfloor>"
    and "\<lfloor>round_double (time / dt s)\<rfloor> \<le> 2147483647"
  shows "TurbGen_check_for_update time s =
    (if step s < \<lfloor>round_double (time / dt s)\<rfloor>
     then (True, TurbGen_get_decomposition_coeffs
                   ((TurbGen_OU_noise_update ^^ nat (\<lfloor>round_double (time / dt s)\<rfloor> - step s)) s))
     else (False, s))
   \<and> step (snd (TurbGen_check_for_update time s)) = max (step s) \<lfloor>round_double (time / dt s)\<rfloor>"
  using check_for_update_eq [of time s] check_for_update_step [of time s]
  by (simp only: requested_step_in_range [OF assms])

theorem check_for_update_requested_step_witness:
  "\<lfloor>round_double (double_0_85 / dt (clock_state double_0_05 14))\<rfloor> = 17 \<and>
   TurbGen_check_for_update double_0_85 (clock_state double_0_05 14)
     = (True, TurbGen_get_decomposition_coeffs
                ((TurbGen_OU_noise_update ^^ 3) (clock_state double_0_05 14))) \<and>
   step (snd (TurbGen_check_for_update double_0_85 (clock_state double_0_05 14))) = 17 \<and>
   TurbGen_check_for_update double_0_85 (clock_state double_0_05 17)
     = (False, clock_state double_0_05 17)"
  using check_for_update_requested_step [of double_0_85 "clock_state double_0_05 14"]
    check_for_update_requested_step [of double_0_85 "clock_state double_0_05 17"]
  by (simp add: clock_state_fields round_double_quotient_0_85_0_05
      get_decomposition_coeffs_frame OU_funpow_frame)

text \<open>
  Claim C6. A call of \<^verbatim>\<open>TurbGen_check_for_update(t)\<close> made right after a call with the same
  \<open>t\<close> returns false and leaves the state as it is: the requested step is not above the
  counter, so the call returns before the loop of Ornstein-Uhlenbeck advances.
\<close>

theorem check_for_update_idempotent:
  "TurbGen_check_for_update time (snd (TurbGen_check_for_update time s))
     = (False, snd (TurbGen_check_for_update time s))
   \<and> requested_step time (snd (TurbGen_check_for_update time s))
       \<le> step (snd (TurbGen_check_for_update time s))"
proof -
  let ?s' = "snd (TurbGen_check_for_update time s)"
  have "requested_step time ?s' \<le> step ?s'"
    by (simp add: requested_step_after check_for_update_step)
  moreover from this have "TurbGen_check_for_update time ?s' = (False, ?s')"
    by (subst check_for_update_eq) simp
  ultimately show ?thesis by simp
qed

lemma run_updates_step_mono: "step s \<le> step (run_updates ts s)"
proof (induction ts arbitrary: s)
  case Nil
  show ?case by (simp add: run_updates_def)
next
  case (Cons time ts)
  have "step s \<le> step (snd (TurbGen_check_for_update time s))"
    by (simp add: check_for_update_step)
  also have "\<dots> \<le> step (run_updates ts (snd (TurbGen_check_for_update time s)))"
    by (rule Cons.IH)
  finally show ?case by (simp add: run_updates_def)
qed

lemma run_updates_append: "run_updates (ts @ us) s = run_updates us (run_updates ts s)"
  by (simp add: run_updates_def)

subsection \<open>Which generator drives the phases\<close>

lemma c_div_nonneg: "0 \<le> a \<Longrightarrow> 0 < b \<Longrightarrow> c_div a b = a div b"
  by (cases "a = 0") (simp_all add: c_div_def)

lemma ran2_idum2:
  assumes "0 < idum"
  shows "idum2 (snd (snd (TurbGen_ran2 idum st))) =
    (let x = 40692 * (idum2 st - c_div (idum2 st) 52774 * 52774) - c_div (idum2 st) 52774 * 3791
     in if x < 0 then x + 2147483399 else x)"
  using assms by (simp add: TurbGen_ran2_def Let_def split_beta)

text \<open>Every call of \<open>TurbGen_ran2\<close> that does not re-initialise moves the static
  \<open>idum2\<close> to a different value.\<close>

lemma ran2_changes_idum2:
  assumes "0 < idum" and "0 < idum2 st" and "idum2 st < 2147483399"
  shows "idum2 (snd (snd (TurbGen_ran2 idum st))) \<noteq> idum2 st"
proof
  define x where "x = idum2 st"
  define k where "k = x div 52774"
  assume eq: "idum2 (snd (snd (TurbGen_ran2 idum st))) = idum2 st"
  have x: "0 < x" "x < 2147483399"
    using assms by (simp_all add: x_def)
  have "c_div x 52774 = k"
    using x by (simp add: c_div_nonneg k_def)
  then have "(let y = 40692 * (x - k * 52774) - k * 3791 in if y < 0 then y + 2147483399 else y) = x"
    using eq by (simp add: ran2_idum2 [OF assms(1)] x_def)
  then have "40691 * x = k * 2147483399 \<or> 40691 * x = (k - 1) * 2147483399"
    by (simp add: Let_def algebra_simps split: if_splits)
  then obtain c where c: "40691 * x = c * 2147483399"
    by blast
  have "x = 918977868 * (40691 * x) - 17413 * x * 2147483399"
    by simp
  also have "\<dots> = 2147483399 * (918977868 * c - 17413 * x)"
    unfolding c by (simp add: algebra_simps)
  finally have "2147483399 dvd x"
    using dvd_triv_left by metis
  with x show False
    using zdvd_not_zless by blast
qed

lemma seeded_state_fields:
  "seed seeded_state = 140281" "idum2 (ran2 seeded_state) = 123456789" "n_modes seeded_state = 1"
  by (simp_all add: seeded_state_def one_mode_state_def tgd_start_def)

text \<open>
  The claim C9 as it is written fails. In the state \<open>seeded_state\<close> (one mode, seed 140281)
  one advance leaves the static variables of \<open>TurbGen_ran2\<close> as they were, while a single
  call \<^verbatim>\<open>TurbGen_ran2(&tgd.seed)\<close> in that state moves \<open>idum2\<close> from 123456789 to 739987727
  (and by \<open>ran2_changes_idum2\<close> any call moves it): the advance makes no call of the
  long-period generator.
\<close>

theorem OU_update_without_ran2_counterexample:
  "ran2 (TurbGen_OU_noise_update seeded_state) = ran2 seeded_state \<and>
   idum2 (ran2 seeded_state) = 123456789 \<and>
   idum2 (ran2 (snd (ran2_seed seeded_state))) = 739987727"
proof -
  have "idum2 (ran2 (snd (ran2_seed seeded_state)))
      = idum2 (snd (snd (TurbGen_ran2 (seed seeded_state) (ran2 seeded_state))))"
    by (simp add: ran2_seed_def split_beta)
  also have "\<dots> = 739987727"
    by (subst ran2_idum2) (simp_all add: seeded_state_fields c_div_def Let_def)
  finally show ?thesis
    by (simp add: OU_noise_update_frame seeded_state_fields)
qed

text \<open>
  Claim C9, amended. Every advance of the phases draws its randomness through
  \<open>TurbGen_grn\<close> alone, that is from the fast generator \<open>TurbGen_ran1s\<close>: it leaves the seed
  where \<open>12 * n_modes\<close> successive draws of \<open>TurbGen_ran1s\<close> leave it (two per phase slot)
  and does not touch the state of the long-period generator \<open>TurbGen_ran2\<close>.
\<close>

theorem OU_update_draws_ran1s_only:
  "seed (TurbGen_OU_noise_update s) = (ran1s_state ^^ (12 * nat (n_modes s))) (seed s) \<and>
   ran2 (TurbGen_OU_noise_update s) = ran2 s"
proof -
  have "2 * nat (6 * n_modes s) = 12 * nat (n_modes s)"
    by (simp add: nat_mult_distrib)
  then show ?thesis
    by (simp add: TurbGen_OU_noise_update_def OU_noise_update_fold Let_def seed_grn_state_funpow)
qed

subsection \<open>The mode set builder keeps its modes in the band\<close>

lemma fold_invariant:
  assumes "P s" and "\<And>x s. x \<in> set xs \<Longrightarrow> P s \<Longrightarrow> P (f x s)"
  shows "P (fold f xs s)"
  using assms by (induction xs arbitrary: s) simp_all

lemma store_mode_ok:
  assumes "modes_ok s0 s"
    and "stir_min s0 \<le> sqrt (kx * kx + ky * ky + kz * kz)"
    and "sqrt (kx * kx + ky * ky + kz * kz) \<le> stir_max s0"
    and "ndim s0 \<le> 1 \<Longrightarrow> ky = 0" and "ndim s0 \<le> 2 \<Longrightarrow> kz = 0"
  shows "modes_ok s0 (store_mode amplitude kx ky kz s)"
proof -
  let ?s' = "store_mode amplitude kx ky kz s"
  let ?n = "nat (n_modes s + 1)"
  have n: "- 1 \<le> n_modes s"
    using assms(1) by (simp add: modes_ok_def)
  have f: "n_modes ?s' = n_modes s + 1" "same_config s0 ?s' = same_config s0 s"
    "ampl ?s' = (ampl s)(?n := amplitude)"
    "mode ?s' = (mode s)(X := (mode s X)(?n := kx), Y := (mode s Y)(?n := ky), Z := (mode s Z)(?n := kz))"
    by (simp_all add: store_mode_def same_config_def Let_def)
  have new: "wavenumber ?s' ?n = sqrt (kx * kx + ky * ky + kz * kz)" "mode ?s' Y ?n = ky" "mode ?s' Z ?n = kz"
    by (simp_all add: wavenumber_def f X_def Y_def Z_def)
  have old: "wavenumber ?s' i = wavenumber s i" "mode ?s' j i = mode s j i" "ampl ?s' i = ampl s i"
    if "i \<noteq> ?n" for i j
    using that by (simp_all add: wavenumber_def f)
  show ?thesis
    unfolding modes_ok_def
  proof (intro conjI allI impI)
    show "same_config s0 ?s'" using assms(1) by (simp add: f modes_ok_def)
    show "- 1 \<le> n_modes ?s'" using n by (simp add: f)
  next
    fix i assume i: "int i \<le> n_modes ?s'"
    show "stir_min s0 \<le> wavenumber ?s' i"
    proof (cases "i = ?n")
      case True then show ?thesis using assms(2) new by simp
    next
      case False
      with i n have "int i \<le> n_modes s" by (simp add: f)
      with assms(1) False show ?thesis by (simp add: old modes_ok_def)
    qed
    show "wavenumber ?s' i \<le> stir_max s0"
    proof (cases "i = ?n")
      case True then show ?thesis using assms(3) new by simp
    next
      case False
      with i n have "int i \<le> n_modes s" by (simp add: f)
      with assms(1) False show ?thesis by (simp add: old modes_ok_def)
    qed
    show "mode ?s' Y i = 0" if d: "ndim s0 \<le> 1"
    proof (cases "i = ?n")
      case True then show ?thesis using assms(4) d new by simp
    next
      case False
      with i n have "int i \<le> n_modes s" by (simp add: f)
      with assms(1) False d show ?thesis by (simp add: old modes_ok_def)
    qed
    show "mode ?s' Z i = 0" if d: "ndim s0 \<le> 2"
    proof (cases "i = ?n")
      case True then show ?thesis using assms(5) d new by simp
    next
      case False
      with i n have "int i \<le> n_modes s" by (simp add: f)
      with assms(1) False d show ?thesis by (simp add: old modes_ok_def)
    qed
  next
    fix i j assume i: "n_modes ?s' < int i"
    then have ne: "i \<noteq> ?n" and lt: "n_modes s < int i"
      using n by (auto simp: f)
    from lt assms(1) show "ampl ?s' i = ampl s0 i" by (simp add: old [OF ne] modes_ok_def)
    from lt assms(1) show "mode ?s' j i = mode s0 j i" by (simp add: old [OF ne] modes_ok_def)
  qed
qed

lemma store_mode_config: "same_config s0 (store_mode amplitude kx ky kz s) = same_config s0 s"
  by (simp add: store_mode_def same_config_def Let_def)

lemma store_mode_ndim [simp]: "ndim (store_mode amplitude kx ky kz s) = ndim s"
  by (simp add: store_mode_def Let_def)

lemma gen_ikz_ok:
  assumes "modes_ok s0 (snd st)" and "ndim s0 \<le> 1 \<Longrightarrow> ky = 0" and "ndim s0 \<le> 2 \<Longrightarrow> ikz = 0"
  shows "modes_ok s0 (snd (gen_ikz parab_prefact kc Lz kx ky ikz st))"
proof -
  obtain amplitude s where st: "st = (amplitude, s)" by (cases st)
  define kz where "kz = 2 * pi * real_of_int ikz / Lz"
  have kz: "ndim s0 \<le> 2 \<Longrightarrow> kz = 0"
    using assms(3) by (simp add: kz_def)
  have c: "same_config s0 s" using assms(1) st by (simp add: modes_ok_def)
  then have d: "ndim s = ndim s0" "stir_min s = stir_min s0" "stir_max s = stir_max s0"
    by (simp_all add: same_config_def)
  have m: "modes_ok s0 s" using assms(1) st by simp
  show ?thesis
  proof (cases "sqrt (kx * kx + ky * ky + kz * kz) \<ge> stir_min s \<and> sqrt (kx * kx + ky * ky + kz * kz) \<le> stir_max s")
    case False
    then show ?thesis using m by (auto simp add: gen_ikz_def st Let_def kz_def)
  next
    case True
    then have b: "stir_min s0 \<le> sqrt (kx * kx + ky * ky + kz * kz)" "sqrt (kx * kx + ky * ky + kz * kz) \<le> stir_max s0"
      by (simp_all add: d)
    have b2: "stir_min s0 \<le> sqrt (kx * kx + (- ky) * (- ky) + kz * kz)" "sqrt (kx * kx + (- ky) * (- ky) + kz * kz) \<le> stir_max s0"
      "stir_min s0 \<le> sqrt (kx * kx + ky * ky + (- kz) * (- kz))" "sqrt (kx * kx + ky * ky + (- kz) * (- kz)) \<le> stir_max s0"
      "stir_min s0 \<le> sqrt (kx * kx + (- ky) * (- ky) + (- kz) * (- kz))" "sqrt (kx * kx + (- ky) * (- ky) + (- kz) * (- kz)) \<le> stir_max s0"
      using b by simp_all
    have s1: "modes_ok s0 (store_mode a kx ky kz s)" for a
      using m b assms(2) kz by (rule store_mode_ok)
    have s2: "modes_ok s0 (store_mode a' kx (- ky) kz t)" if "modes_ok s0 t" for a' t
      by (rule store_mode_ok [OF that b2(1,2)]) (use assms(2) kz in simp_all)
    have s3: "modes_ok s0 (store_mode a' kx ky (- kz) t)" if "modes_ok s0 t" for a' t
      by (rule store_mode_ok [OF that b2(3,4)]) (use assms(2) kz in simp_all)
    have s4: "modes_ok s0 (store_mode a' kx (- ky) (- kz) t)" if "modes_ok s0 t" for a' t
      by (rule store_mode_ok [OF that b2(5,6)]) (use assms(2) kz in simp_all)
    show ?thesis
      using True s1 s2 s3 s4
      by (simp add: gen_ikz_def st Let_def kz_def [symmetric] d store_mode_ndim)
  qed
qed

lemma gen_iky_ok:
  assumes "modes_ok s0 (snd st)" and "ndim s0 \<le> 1 \<Longrightarrow> iky = 0"
    and "\<And>ikz. ikz \<in> set [ikzmin..ikzmax] \<Longrightarrow> ndim s0 \<le> 2 \<Longrightarrow> ikz = 0"
  shows "modes_ok s0 (snd (gen_iky parab_prefact kc Ly Lz ikzmin ikzmax kx iky st))"
  unfolding gen_iky_def Let_def
  by (rule fold_invariant [where P = "\<lambda>st. modes_ok s0 (snd st)"], rule assms(1), rule gen_ikz_ok)
    (use assms(2,3) in simp_all)

lemma gen_ikx_ok:
  assumes "modes_ok s0 (snd st)"
    and "\<And>iky. iky \<in> set [ikymin..ikymax] \<Longrightarrow> ndim s0 \<le> 1 \<Longrightarrow> iky = 0"
    and "\<And>ikz. ikz \<in> set [ikzmin..ikzmax] \<Longrightarrow> ndim s0 \<le> 2 \<Longrightarrow> ikz = 0"
  shows "modes_ok s0 (snd (gen_ikx parab_prefact kc Lx' Ly Lz ikymin ikymax ikzmin ikzmax ikx st))"
  unfolding gen_ikx_def Let_def
  by (rule fold_invariant [where P = "\<lambda>st. modes_ok s0 (snd st)"], rule assms(1), rule gen_iky_ok)
    (use assms(2,3) in simp_all)

lemma gen_pass_ok:
  assumes "modes_ok s0 s"
    and "\<And>iky. iky \<in> set [ikymin..ikymax] \<Longrightarrow> ndim s0 \<le> 1 \<Longrightarrow> iky = 0"
    and "\<And>ikz. ikz \<in> set [ikzmin..ikzmax] \<Longrightarrow> ndim s0 \<le> 2 \<Longrightarrow> ikz = 0"
  shows "modes_ok s0 (snd (fold (gen_ikx parab_prefact kc Lx' Ly Lz ikymin ikymax ikzmin ikzmax) xs (amplitude0, s)))"
  by (rule fold_invariant [where P = "\<lambda>st. modes_ok s0 (snd st)"], simp add: assms(1), rule gen_ikx_ok)
    (use assms(2,3) in simp_all)

lemma modes_ok_rng [simp]:
  "modes_ok s0 (s\<lparr>seed := d\<rparr>) = modes_ok s0 s"
  "modes_ok s0 (s\<lparr>ran2 := st\<rparr>) = modes_ok s0 s"
  by (simp_all add: modes_ok_def same_config_def wavenumber_def)

lemma ran2_seed_ok [simp]: "modes_ok s0 (snd (ran2_seed s)) = modes_ok s0 s"
  by (simp add: ran2_seed_def split_beta)

lemma ran2_seed_fields [simp]:
  "ndim (snd (ran2_seed s)) = ndim s" "stir_min (snd (ran2_seed s)) = stir_min s"
  "stir_max (snd (ran2_seed s)) = stir_max s" "n_modes (snd (ran2_seed s)) = n_modes s"
  by (simp_all add: ran2_seed_def split_beta)

lemma power_law_sample_ok:
  "modes_ok s0 (snd (power_law_sample Lx' Ly Lz ik s)) = modes_ok s0 s"
  "ndim (snd (power_law_sample Lx' Ly Lz ik s)) = ndim s"
  "stir_min (snd (power_law_sample Lx' Ly Lz ik s)) = stir_min s"
  "stir_max (snd (power_law_sample Lx' Ly Lz ik s)) = stir_max s"
  "n_modes (snd (power_law_sample Lx' Ly Lz ik s)) = n_modes s"
  by (simp_all add: power_law_sample_def Let_def split_beta)

lemma power_law_sample_axes:
  "ndim s \<le> 1 \<Longrightarrow> fst (snd (fst (power_law_sample Lx' Ly Lz ik s))) = 0"
  "ndim s \<le> 2 \<Longrightarrow> snd (snd (fst (power_law_sample Lx' Ly Lz ik s))) = 0"
  by (simp_all add: power_law_sample_def Let_def split_beta)

lemma power_law_iang_ok:
  assumes "result_ok s0 r"
  shows "result_ok s0 (power_law_iang kc Lx' Ly Lz ik nang iang r)"
proof (cases r)
  case (Inl e)
  then show ?thesis by (simp add: power_law_iang_def result_ok_def)
next
  case (Inr s)
  then have m: "modes_ok s0 s" using assms by (simp add: result_ok_def)
  then have d: "ndim s = ndim s0" "stir_min s = stir_min s0" "stir_max s = stir_max s0"
    by (simp_all add: modes_ok_def same_config_def)
  obtain kx ky kz t where p: "power_law_sample Lx' Ly Lz ik s = ((kx, ky, kz), t)"
    by (metis prod.collapse)
  have q: "t = snd (power_law_sample Lx' Ly Lz ik s)" "ky = fst (snd (fst (power_law_sample Lx' Ly Lz ik s)))"
    "kz = snd (snd (fst (power_law_sample Lx' Ly Lz ik s)))"
    by (simp_all add: p)
  have t: "modes_ok s0 t" "stir_min t = stir_min s0" "stir_max t = stir_max s0"
    using m d by (simp_all add: q power_law_sample_ok)
  have z: "ndim s0 \<le> 1 \<Longrightarrow> ky = 0" "ndim s0 \<le> 2 \<Longrightarrow> kz = 0"
    using d by (simp_all add: q power_law_sample_axes)
  define k where "k = sqrt (kx * kx + ky * ky + kz * kz)"
  have st: "modes_ok s0 (store_mode a kx ky kz t)" if "stir_min s0 \<le> k" "k \<le> stir_max s0" for a
    using t(1) that z unfolding k_def by (rule store_mode_ok)
  have e: "power_law_iang kc Lx' Ly Lz ik nang iang r =
      (if k \<ge> stir_min s0 \<and> k \<le> stir_max s0 then
         (if real_of_int (n_modes t) + c_pow 2 (real_of_int (ndim t - 1)) > real_of_int tgd_max_n_modes
          then Inl TooManyModes
          else Inr (store_mode (sqrt (c_pow (k / kc) (power_law_exp t) * c_pow (real_of_int ik) (real_of_int (ndim t - 1))
                                    / real_of_int nang * 4 * sqrt 3)
                                  * c_pow (kc / k) (real_of_int (ndim t - 1) / 2)) kx ky kz t))
       else Inr t)"
    unfolding power_law_iang_def Inr sum.case p prod.case Let_def k_def t(2,3) ..
  show ?thesis
  proof (cases "k \<ge> stir_min s0 \<and> k \<le> stir_max s0")
    case True
    then show ?thesis
      unfolding e result_ok_def using st by (simp split: sum.splits)
  next
    case False
    then have "power_law_iang kc Lx' Ly Lz ik nang iang r = Inr t"
      unfolding e by (rule if_not_P)
    then show ?thesis
      using t(1) by (simp add: result_ok_def)
  qed
qed

lemma power_law_ik_ok:
  assumes "result_ok s0 r"
  shows "result_ok s0 (power_law_ik kc Lx' Ly Lz ik r)"
proof (cases r)
  case (Inl e)
  then show ?thesis by (simp add: power_law_ik_def result_ok_def)
next
  case (Inr s)
  show ?thesis
    unfolding power_law_ik_def Inr sum.case Let_def
  proof (rule fold_invariant [where P = "result_ok s0"])
    show "result_ok s0 (Inr s)" using assms Inr by simp
  next
    fix x r' assume "result_ok s0 r'"
    then show "result_ok s0 (power_law_iang kc Lx' Ly Lz ik
        (c_trunc (c_pow 2 (real_of_int (ndim s)) * real_of_int \<lceil>c_pow (real_of_int ik) (angles_exp s)\<rceil>)) x r')"
      by (rule power_law_iang_ok)
  qed
qed

lemma power_law_modes_ok:
  assumes "modes_ok s0 s"
  shows "result_ok s0 (power_law_modes kc Lx' Ly Lz s)"
  unfolding power_law_modes_def Let_def split_beta
proof (rule fold_invariant [where P = "result_ok s0"])
  show "result_ok s0 (Inr (s\<lparr>ran2 := snd (snd (TurbGen_ran2 (neg_int (seed s)) (ran2 s)))\<rparr>))"
    using assms by (simp add: result_ok_def)
next
  fix x r' assume "result_ok s0 r'"
  then show "result_ok s0 (power_law_ik kc Lx' Ly Lz x r')"
    by (rule power_law_ik_ok)
qed

subsection \<open>The counting pass and the result of the mode set builder\<close>

lemma in_band_n_modes [simp]: "in_band (s\<lparr>n_modes := m\<rparr>) = in_band s"
  by (simp add: in_band_def fun_eq_iff)

lemma retained_n_modes [simp]:
  "retained_ikz (s\<lparr>n_modes := m\<rparr>) = retained_ikz s"
  "retained_iky (s\<lparr>n_modes := m\<rparr>) = retained_iky s"
  "retained_ikx (s\<lparr>n_modes := m\<rparr>) = retained_ikx s"
  by (simp_all add: retained_ikz_def retained_iky_def retained_ikx_def fun_eq_iff)

lemma count_ikz_eq:
  "count_ikz (zmax s - zmin s) kx ky ikz s =
     s\<lparr>n_modes := n_modes s + mirror_multiplicity (ndim s) * int (length (retained_ikz s kx ky [ikz]))\<rparr>"
  by (simp add: count_ikz_def retained_ikz_def in_band_def mirror_multiplicity_def Let_def)

lemma count_ikz_fold:
  "fold (count_ikz (zmax s - zmin s) kx ky) ikzs s =
     s\<lparr>n_modes := n_modes s + mirror_multiplicity (ndim s) * int (length (retained_ikz s kx ky ikzs))\<rparr>"
proof (induction ikzs arbitrary: s)
  case Nil
  show ?case by (simp add: retained_ikz_def)
next
  case (Cons ikz ikzs)
  let ?s = "count_ikz (zmax s - zmin s) kx ky ikz s"
  have s: "?s = s\<lparr>n_modes := n_modes s + mirror_multiplicity (ndim s) * int (length (retained_ikz s kx ky [ikz]))\<rparr>"
    by (rule count_ikz_eq)
  have "fold (count_ikz (zmax s - zmin s) kx ky) (ikz # ikzs) s = fold (count_ikz (zmax ?s - zmin ?s) kx ky) ikzs ?s"
    by (simp add: s)
  also have "\<dots> = ?s\<lparr>n_modes := n_modes ?s + mirror_multiplicity (ndim ?s) * int (length (retained_ikz ?s kx ky ikzs))\<rparr>"
    by (rule Cons.IH)
  also have "\<dots> = s\<lparr>n_modes := n_modes s + mirror_multiplicity (ndim s) * int (length (retained_ikz s kx ky (ikz # ikzs)))\<rparr>"
    unfolding s by (simp add: retained_ikz_def algebra_simps)
  finally show ?case .
qed

lemma count_iky_fold:
  "fold (count_iky (ymax s - ymin s) (zmax s - zmin s) ikzmin ikzmax kx) ikys s =
     s\<lparr>n_modes := n_modes s + mirror_multiplicity (ndim s) * int (length (retained_iky s kx ikys [ikzmin..ikzmax]))\<rparr>"
proof (induction ikys arbitrary: s)
  case Nil
  show ?case by (simp add: retained_iky_def)
next
  case (Cons iky ikys)
  let ?s = "count_iky (ymax s - ymin s) (zmax s - zmin s) ikzmin ikzmax kx iky s"
  have s: "?s = s\<lparr>n_modes := n_modes s + mirror_multiplicity (ndim s) *
      int (length (retained_ikz s kx (2 * pi * real_of_int iky / (ymax s - ymin s)) [ikzmin..ikzmax]))\<rparr>"
    by (simp add: count_iky_def count_ikz_fold)
  have "fold (count_iky (ymax s - ymin s) (zmax s - zmin s) ikzmin ikzmax kx) (iky # ikys) s
      = fold (count_iky (ymax ?s - ymin ?s) (zmax ?s - zmin ?s) ikzmin ikzmax kx) ikys ?s"
    by (simp add: s)
  also have "\<dots> = ?s\<lparr>n_modes := n_modes ?s + mirror_multiplicity (ndim ?s) * int (length (retained_iky ?s kx ikys [ikzmin..ikzmax]))\<rparr>"
    by (rule Cons.IH)
  also have "\<dots> = s\<lparr>n_modes := n_modes s + mirror_multiplicity (ndim s) * int (length (retained_iky s kx (iky # ikys) [ikzmin..ikzmax]))\<rparr>"
    unfolding s by (simp add: retained_iky_def algebra_simps)
  finally show ?case .
qed

lemma count_ikx_fold:
  "fold (count_ikx (xmax s - xmin s) (ymax s - ymin s) (zmax s - zmin s) ikymin ikymax ikzmin ikzmax) ikxs s =
     s\<lparr>n_modes := n_modes s + mirror_multiplicity (ndim s) *
        int (length (retained_ikx s ikxs [ikymin..ikymax] [ikzmin..ikzmax]))\<rparr>"
proof (induction ikxs arbitrary: s)
  case Nil
  show ?case by (simp add: retained_ikx_def)
next
  case (Cons ikx ikxs)
  let ?s = "count_ikx (xmax s - xmin s) (ymax s - ymin s) (zmax s - zmin s) ikymin ikymax ikzmin ikzmax ikx s"
  have s: "?s = s\<lparr>n_modes := n_modes s + mirror_multiplicity (ndim s) *
      int (length (retained_iky s (2 * pi * real_of_int ikx / (xmax s - xmin s)) [ikymin..ikymax] [ikzmin..ikzmax]))\<rparr>"
    by (simp add: count_ikx_def count_iky_fold)
  have "fold (count_ikx (xmax s - xmin s) (ymax s - ymin s) (zmax s - zmin s) ikymin ikymax ikzmin ikzmax) (ikx # ikxs) s
      = fold (count_ikx (xmax ?s - xmin ?s) (ymax ?s - ymin ?s) (zmax ?s - zmin ?s) ikymin ikymax ikzmin ikzmax) ikxs ?s"
    by (simp add: s)
  also have "\<dots> = ?s\<lparr>n_modes := n_modes ?s + mirror_multiplicity (ndim ?s) *
      int (length (retained_ikx ?s ikxs [ikymin..ikymax] [ikzmin..ikzmax]))\<rparr>"
    by (rule Cons.IH)
  also have "\<dots> = s\<lparr>n_modes := n_modes s + mirror_multiplicity (ndim s) *
      int (length (retained_ikx s (ikx # ikxs) [ikymin..ikymax] [ikzmin..ikzmax]))\<rparr>"
    unfolding s by (simp add: retained_ikx_def algebra_simps)
  finally show ?case .
qed

lemma count_pass_eq:
  "count_pass s = s\<lparr>n_modes := mirror_multiplicity (ndim s) * int (length (retained_wavevectors s))\<rparr>"
proof -
  let ?s = "s\<lparr>n_modes := 0\<rparr>"
  have "count_pass s = fold (count_ikx (xmax ?s - xmin ?s) (ymax ?s - ymin ?s) (zmax ?s - zmin ?s)
      0 (if ndim s > 1 then 256 else 0) 0 (if ndim s > 2 then 256 else 0)) [0..256] ?s"
    by (simp add: count_pass_def Let_def)
  also have "\<dots> = s\<lparr>n_modes := mirror_multiplicity (ndim s) * int (length (retained_wavevectors s))\<rparr>"
    unfolding count_ikx_fold by (simp add: retained_wavevectors_def)
  finally show ?thesis .
qed

lemma modes_ok_start: "modes_ok (s\<lparr>n_modes := - 1\<rparr>) (s\<lparr>n_modes := - 1\<rparr>)"
  by (simp add: modes_ok_def same_config_def)

lemma gen_pass_spect_form:
  assumes "\<And>iky. iky \<in> set [ikymin..ikymax] \<Longrightarrow> ndim s \<le> 1 \<Longrightarrow> iky = 0"
    and "\<And>ikz. ikz \<in> set [ikzmin..ikzmax] \<Longrightarrow> ndim s \<le> 2 \<Longrightarrow> ikz = 0"
  shows "spect_form (snd (fold (gen_ikx parab_prefact kc Lx' Ly Lz ikymin ikymax ikzmin ikzmax) xs
            (amplitude0, s\<lparr>n_modes := - 1\<rparr>))) = spect_form s"
proof -
  have "modes_ok (s\<lparr>n_modes := - 1\<rparr>) (snd (fold (gen_ikx parab_prefact kc Lx' Ly Lz ikymin ikymax ikzmin ikzmax) xs
            (amplitude0, s\<lparr>n_modes := - 1\<rparr>)))"
    by (rule gen_pass_ok) (use assms in \<open>simp_all add: modes_ok_start\<close>)
  then show ?thesis
    by (simp add: modes_ok_def same_config_def)
qed

lemma init_modes_result:
  assumes "TurbGen_init_modes amplitude0 s = Inr s'"
  shows "modes_ok (s\<lparr>n_modes := - 1\<rparr>) (s'\<lparr>n_modes := n_modes s' - 1\<rparr>)"
proof -
  obtain k where k: "count_pass s = s\<lparr>n_modes := k\<rparr>"
    using count_pass_eq by blast
  let ?s = "s\<lparr>n_modes := - 1\<rparr>"
  show ?thesis
  proof (cases "spect_form s = 2")
    case True
    let ?r = "power_law_modes (stir_min s) (xmax s - xmin s) (ymax s - ymin s) (zmax s - zmin s) ?s"
    have "result_ok ?s ?r"
      by (rule power_law_modes_ok) (rule modes_ok_start)
    moreover have "(case ?r of Inl e \<Rightarrow> Inl e | Inr t \<Rightarrow> Inr (t\<lparr>n_modes := n_modes t + 1\<rparr>)) = Inr s'"
      using assms True by (simp add: TurbGen_init_modes_def k Let_def)
    ultimately show ?thesis
      by (auto simp: result_ok_def split: sum.splits)
  next
    case False
    have g: "modes_ok ?s (snd (fold (gen_ikx pp kc Lx' Ly Lz 0 (if ndim s > 1 then 256 else 0) 0 (if ndim s > 2 then 256 else 0))
                [0..256] (amplitude0, ?s)))" for pp kc Lx' Ly Lz
      by (rule gen_pass_ok) (auto simp: modes_ok_start)
    have sf: "spect_form (snd (fold (gen_ikx pp kc Lx' Ly Lz 0 (if ndim s > 1 then 256 else 0) 0 (if ndim s > 2 then 256 else 0))
                [0..256] (amplitude0, ?s))) = spect_form s" for pp kc Lx' Ly Lz
      by (rule gen_pass_spect_form) auto
    have "\<exists>pp kc Lx' Ly Lz. s' = (snd (fold (gen_ikx pp kc Lx' Ly Lz 0 (if ndim s > 1 then 256 else 0) 0 (if ndim s > 2 then 256 else 0))
                [0..256] (amplitude0, ?s)))\<lparr>n_modes := n_modes (snd (fold (gen_ikx pp kc Lx' Ly Lz 0 (if ndim s > 1 then 256 else 0) 0 (if ndim s > 2 then 256 else 0))
                [0..256] (amplitude0, ?s))) + 1\<rparr>"
      using assms False unfolding TurbGen_init_modes_def k Let_def
      by (simp add: sf split: if_splits) blast+
    then show ?thesis
      using g by auto
  qed
qed

subsection \<open>The generating pass writes the retained wavevectors in order\<close>

lemma store_mode_inv:
  assumes "gen_inv s0 L s" and "amplitude = band_amplitude s0 (kx, ky, kz)"
  shows "gen_inv s0 (L @ [(kx, ky, kz)]) (store_mode amplitude kx ky kz s)"
proof -
  let ?s' = "store_mode amplitude kx ky kz s"
  have n: "n_modes s = int (length L) - 1"
    using assms(1) by (simp add: gen_inv_def)
  then have idx: "nat (n_modes s + 1) = length L"
    by simp
  have f: "n_modes ?s' = n_modes s + 1" "same_config s0 ?s' = same_config s0 s"
    "ampl ?s' = (ampl s)(length L := amplitude)"
    "mode ?s' = (mode s)(X := (mode s X)(length L := kx), Y := (mode s Y)(length L := ky),
        Z := (mode s Z)(length L := kz))"
    by (simp_all add: store_mode_def same_config_def Let_def idx)
  show ?thesis
    unfolding gen_inv_def
  proof (intro conjI allI impI)
    show "same_config s0 ?s'" using assms(1) by (simp add: f gen_inv_def)
    show "n_modes ?s' = int (length (L @ [(kx, ky, kz)])) - 1" using n by (simp add: f)
  next
    fix i assume i: "i < length (L @ [(kx, ky, kz)])"
    show "(mode ?s' X i, mode ?s' Y i, mode ?s' Z i) = (L @ [(kx, ky, kz)]) ! i"
    proof (cases "i = length L")
      case True
      then show ?thesis by (simp add: f X_def Y_def Z_def)
    next
      case False
      with i have "i < length L" by simp
      with assms(1) False show ?thesis by (simp add: f gen_inv_def nth_append X_def Y_def Z_def)
    qed
    show "ampl ?s' i = band_amplitude s0 ((L @ [(kx, ky, kz)]) ! i)"
    proof (cases "i = length L")
      case True
      have "ampl ?s' (length L) = amplitude" by (simp add: f)
      then show ?thesis unfolding True assms(2) by simp
    next
      case False
      with i have "i < length L" by simp
      with assms(1) False show ?thesis by (simp add: f gen_inv_def nth_append)
    qed
  next
    fix i j assume "length (L @ [(kx, ky, kz)]) \<le> i"
    then have i: "length L \<le> i" "i \<noteq> length L" by simp_all
    from assms(1) i show "ampl ?s' i = ampl s0 i" by (simp add: f gen_inv_def)
    from assms(1) i show "mode ?s' j i = mode s0 j i" by (simp add: f gen_inv_def)
  qed
qed

lemma band_amplitude_mirror:
  "band_amplitude s (kx, - ky, kz) = band_amplitude s (kx, ky, kz)"
  "band_amplitude s (kx, ky, - kz) = band_amplitude s (kx, ky, kz)"
  "band_amplitude s (kx, - ky, - kz) = band_amplitude s (kx, ky, kz)"
  by (simp_all add: band_amplitude_def)

lemma gen_ikz_inv:
  assumes "gen_inv s0 L (snd st)" and "spect_form s0 = 0 \<or> spect_form s0 = 1"
    and "parab_prefact = - 4 / c_pow (stir_max s0 - stir_min s0) 2"
    and "kc = (if spect_form s0 = 1 then (1 / 2) * (stir_min s0 + stir_max s0) else stir_min s0)"
  shows "gen_inv s0 (L @ concat (map (mirrors (ndim s0)) (retained_ikz s0 kx ky [ikz])))
           (snd (gen_ikz parab_prefact kc (zmax s0 - zmin s0) kx ky ikz st))"
proof -
  obtain amplitude s where st: "st = (amplitude, s)" by (cases st)
  define kz where "kz = 2 * pi * real_of_int ikz / (zmax s0 - zmin s0)"
  define k where "k = sqrt (kx * kx + ky * ky + kz * kz)"
  have m: "gen_inv s0 L s" using assms(1) st by simp
  then have d: "ndim s = ndim s0" "stir_min s = stir_min s0" "stir_max s = stir_max s0"
      "spect_form s = spect_form s0"
    by (simp_all add: gen_inv_def same_config_def)
  define a where "a = band_amplitude s0 (kx, ky, kz)"
  show ?thesis
  proof (cases "in_band s0 (kx, ky, kz)")
    case False
    then have "retained_ikz s0 kx ky [ikz] = []"
      by (simp add: retained_ikz_def kz_def)
    moreover have "\<not> (stir_min s \<le> k \<and> k \<le> stir_max s)"
      using False by (simp add: in_band_def d k_def)
    then have "gen_ikz parab_prefact kc (zmax s0 - zmin s0) kx ky ikz st = st"
      unfolding gen_ikz_def st prod.case Let_def kz_def [symmetric] k_def [symmetric]
      by (simp only: if_False)
    ultimately show ?thesis using assms(1) by simp
  next
    case True
    then have r: "retained_ikz s0 kx ky [ikz] = [(kx, ky, kz)]"
      by (simp add: retained_ikz_def kz_def)
    have b: "stir_min s \<le> k \<and> k \<le> stir_max s"
      using True by (simp add: in_band_def d k_def)
    have s1: "gen_inv s0 (L @ [(kx, ky, kz)]) (store_mode a kx ky kz s)"
      using m by (rule store_mode_inv) (simp add: a_def)
    have s2: "gen_inv s0 (L' @ [(kx, - ky, kz)]) (store_mode a kx (- ky) kz t)" if "gen_inv s0 L' t" for L' t
      using that by (rule store_mode_inv) (simp add: a_def band_amplitude_mirror)
    have s3: "gen_inv s0 (L' @ [(kx, ky, - kz)]) (store_mode a kx ky (- kz) t)" if "gen_inv s0 L' t" for L' t
      using that by (rule store_mode_inv) (simp add: a_def band_amplitude_mirror)
    have s4: "gen_inv s0 (L' @ [(kx, - ky, - kz)]) (store_mode a kx (- ky) (- kz) t)" if "gen_inv s0 L' t" for L' t
      using that by (rule store_mode_inv) (simp add: a_def band_amplitude_mirror)
    have e: "snd (gen_ikz parab_prefact kc (zmax s0 - zmin s0) kx ky ikz st) =
      (let t = store_mode a kx ky kz s;
           t = (if ndim s0 > 1 then store_mode a kx (- ky) kz t else t)
       in if ndim s0 > 2 then store_mode a kx (- ky) (- kz) (store_mode a kx ky (- kz) t) else t)"
      using b assms(2)
      unfolding gen_ikz_def st prod.case kz_def [symmetric] a_def band_amplitude_def assms(3,4) k_def
      by (auto simp: Let_def d)
    show ?thesis
    proof (cases "ndim s0 > 1")
      case False
      then show ?thesis
        using s1 by (simp add: e r mirrors_def)
    next
      case d1: True
      show ?thesis
      proof (cases "ndim s0 > 2")
        case False
        then show ?thesis
          using d1 s2 [OF s1] by (simp add: e r mirrors_def)
      next
        case True
        then show ?thesis
          using d1 s4 [OF s3 [OF s2 [OF s1]]] by (simp add: e r mirrors_def)
      qed
    qed
  qed
qed

lemma retained_Cons:
  "retained_ikz s kx ky (ikz # ikzs) = retained_ikz s kx ky [ikz] @ retained_ikz s kx ky ikzs"
  "retained_iky s kx (iky # ikys) zs =
     retained_ikz s kx (2 * pi * real_of_int iky / (ymax s - ymin s)) zs @ retained_iky s kx ikys zs"
  "retained_ikx s (ikx # ikxs) ys zs =
     retained_iky s (2 * pi * real_of_int ikx / (xmax s - xmin s)) ys zs @ retained_ikx s ikxs ys zs"
  by (simp_all add: retained_ikz_def retained_iky_def retained_ikx_def)

lemma gen_ikz_fold_inv:
  assumes "gen_inv s0 L (snd st)" and "spect_form s0 = 0 \<or> spect_form s0 = 1"
    and "parab_prefact = - 4 / c_pow (stir_max s0 - stir_min s0) 2"
    and "kc = (if spect_form s0 = 1 then (1 / 2) * (stir_min s0 + stir_max s0) else stir_min s0)"
  shows "gen_inv s0 (L @ concat (map (mirrors (ndim s0)) (retained_ikz s0 kx ky ikzs)))
           (snd (fold (gen_ikz parab_prefact kc (zmax s0 - zmin s0) kx ky) ikzs st))"
  using assms(1)
proof (induction ikzs arbitrary: L st)
  case Nil
  then show ?case by (simp add: retained_ikz_def)
next
  case (Cons ikz ikzs)
  have "gen_inv s0 (L @ concat (map (mirrors (ndim s0)) (retained_ikz s0 kx ky [ikz])))
           (snd (gen_ikz parab_prefact kc (zmax s0 - zmin s0) kx ky ikz st))"
    using Cons.prems assms(2-4) by (rule gen_ikz_inv)
  then have "gen_inv s0 ((L @ concat (map (mirrors (ndim s0)) (retained_ikz s0 kx ky [ikz])))
              @ concat (map (mirrors (ndim s0)) (retained_ikz s0 kx ky ikzs)))
           (snd (fold (gen_ikz parab_prefact kc (zmax s0 - zmin s0) kx ky) ikzs
                  (gen_ikz parab_prefact kc (zmax s0 - zmin s0) kx ky ikz st)))"
    by (rule Cons.IH)
  then show ?case
    unfolding retained_Cons(1) [of s0 kx ky ikz ikzs] by simp
qed

lemma gen_iky_fold_inv:
  assumes "gen_inv s0 L (snd st)" and "spect_form s0 = 0 \<or> spect_form s0 = 1"
    and "parab_prefact = - 4 / c_pow (stir_max s0 - stir_min s0) 2"
    and "kc = (if spect_form s0 = 1 then (1 / 2) * (stir_min s0 + stir_max s0) else stir_min s0)"
  shows "gen_inv s0 (L @ concat (map (mirrors (ndim s0)) (retained_iky s0 kx ikys [ikzmin..ikzmax])))
           (snd (fold (gen_iky parab_prefact kc (ymax s0 - ymin s0) (zmax s0 - zmin s0) ikzmin ikzmax kx) ikys st))"
  using assms(1)
proof (induction ikys arbitrary: L st)
  case Nil
  then show ?case by (simp add: retained_iky_def)
next
  case (Cons iky ikys)
  let ?st = "gen_iky parab_prefact kc (ymax s0 - ymin s0) (zmax s0 - zmin s0) ikzmin ikzmax kx iky st"
  let ?L = "L @ concat (map (mirrors (ndim s0))
              (retained_ikz s0 kx (2 * pi * real_of_int iky / (ymax s0 - ymin s0)) [ikzmin..ikzmax]))"
  have "gen_inv s0 ?L (snd ?st)"
    unfolding gen_iky_def Let_def using Cons.prems assms(2-4) by (rule gen_ikz_fold_inv)
  then have "gen_inv s0 (?L @ concat (map (mirrors (ndim s0)) (retained_iky s0 kx ikys [ikzmin..ikzmax])))
           (snd (fold (gen_iky parab_prefact kc (ymax s0 - ymin s0) (zmax s0 - zmin s0) ikzmin ikzmax kx) ikys ?st))"
    by (rule Cons.IH)
  then show ?case
    unfolding retained_Cons(2) [of s0 kx iky ikys] by simp
qed

lemma gen_ikx_fold_inv:
  assumes "gen_inv s0 L (snd st)" and "spect_form s0 = 0 \<or> spect_form s0 = 1"
    and "parab_prefact = - 4 / c_pow (stir_max s0 - stir_min s0) 2"
    and "kc = (if spect_form s0 = 1 then (1 / 2) * (stir_min s0 + stir_max s0) else stir_min s0)"
  shows "gen_inv s0 (L @ concat (map (mirrors (ndim s0)) (retained_ikx s0 ikxs [ikymin..ikymax] [ikzmin..ikzmax])))
           (snd (fold (gen_ikx parab_prefact kc (xmax s0 - xmin s0) (ymax s0 - ymin s0) (zmax s0 - zmin s0)
                   ikymin ikymax ikzmin ikzmax) ikxs st))"
  using assms(1)
proof (induction ikxs arbitrary: L st)
  case Nil
  then show ?case by (simp add: retained_ikx_def)
next
  case (Cons ikx ikxs)
  let ?st = "gen_ikx parab_prefact kc (xmax s0 - xmin s0) (ymax s0 - ymin s0) (zmax s0 - zmin s0)
                   ikymin ikymax ikzmin ikzmax ikx st"
  let ?L = "L @ concat (map (mirrors (ndim s0))
              (retained_iky s0 (2 * pi * real_of_int ikx / (xmax s0 - xmin s0)) [ikymin..ikymax] [ikzmin..ikzmax]))"
  have "gen_inv s0 ?L (snd ?st)"
    unfolding gen_ikx_def Let_def using Cons.prems assms(2-4) by (rule gen_iky_fold_inv)
  then have "gen_inv s0 (?L @ concat (map (mirrors (ndim s0)) (retained_ikx s0 ikxs [ikymin..ikymax] [ikzmin..ikzmax])))
           (snd (fold (gen_ikx parab_prefact kc (xmax s0 - xmin s0) (ymax s0 - ymin s0) (zmax s0 - zmin s0)
                   ikymin ikymax ikzmin ikzmax) ikxs ?st))"
    by (rule Cons.IH)
  then show ?case
    unfolding retained_Cons(3) [of s0 ikx ikxs] by simp
qed

lemma gen_inv_start: "gen_inv (s\<lparr>n_modes := - 1\<rparr>) [] (s\<lparr>n_modes := - 1\<rparr>)"
  by (simp add: gen_inv_def same_config_def)

lemma band_amplitude_n_modes [simp]: "band_amplitude (s\<lparr>n_modes := m\<rparr>) v = band_amplitude s v"
  by (simp add: band_amplitude_def split_beta Let_def cong: if_cong)

lemma gen_inv_n_modes [simp]: "gen_inv (s0\<lparr>n_modes := m\<rparr>) L s = gen_inv s0 L s"
  by (simp add: gen_inv_def same_config_def)

lemma length_mirrors: "length (mirrors d v) = nat (mirror_multiplicity d)"
  by (cases v) (simp add: mirrors_def mirror_multiplicity_def)

lemma length_mode_list:
  "int (length (mode_list s)) = mirror_multiplicity (ndim s) * int (length (retained_wavevectors s))"
proof -
  have "length (concat (map (mirrors d) vs)) = nat (mirror_multiplicity d) * length vs" for d vs
    by (induction vs) (simp_all add: length_mirrors)
  moreover have "0 \<le> mirror_multiplicity d" for d
    by (simp add: mirror_multiplicity_def)
  ultimately show ?thesis
    by (simp add: mode_list_def)
qed

lemma gen_pass_config:
  assumes "same_config s0 s"
  shows "same_config s0 (snd (fold (gen_ikx parab_prefact kc Lx' Ly Lz ikymin ikymax ikzmin ikzmax) ikxs (amplitude0, s)))"
proof -
  have z: "same_config s0 (snd (gen_ikz parab_prefact kc Lz kx ky ikz st))" if "same_config s0 (snd st)"
    for kx ky ikz st
    using that by (cases st) (simp add: gen_ikz_def Let_def store_mode_config)
  have y: "same_config s0 (snd (gen_iky parab_prefact kc Ly Lz ikzmin ikzmax kx iky st))" if "same_config s0 (snd st)"
    for kx iky st
    unfolding gen_iky_def Let_def
    by (rule fold_invariant [where P = "\<lambda>st. same_config s0 (snd st)"]) (use that z in auto)
  have x: "same_config s0 (snd (gen_ikx parab_prefact kc Lx' Ly Lz ikymin ikymax ikzmin ikzmax ikx st))"
    if "same_config s0 (snd st)" for ikx st
    unfolding gen_ikx_def Let_def
    by (rule fold_invariant [where P = "\<lambda>st. same_config s0 (snd st)"]) (use that y in auto)
  show ?thesis
    by (rule fold_invariant [where P = "\<lambda>st. same_config s0 (snd st)"]) (use assms x in auto)
qed

lemma gen_pass_spect_form_any [simp]:
  "spect_form (snd (fold (gen_ikx parab_prefact kc Lx' Ly Lz ikymin ikymax ikzmin ikzmax) ikxs (amplitude0, s)))
     = spect_form s"
  using gen_pass_config [of s s] by (simp add: same_config_def)

lemma init_modes_band:
  assumes "spect_form s = 0 \<or> spect_form s = 1" and "TurbGen_init_modes amplitude0 s = Inr s'"
  shows "gen_inv s (mode_list s) (s'\<lparr>n_modes := n_modes s' - 1\<rparr>)"
proof -
  let ?s = "s\<lparr>n_modes := - 1\<rparr>"
  let ?pp = "- 4 / c_pow (stir_max s - stir_min s) 2"
  let ?kc = "if spect_form s = 1 then (1 / 2) * (stir_min s + stir_max s) else stir_min s"
  let ?t = "snd (fold (gen_ikx ?pp ?kc (xmax s - xmin s) (ymax s - ymin s) (zmax s - zmin s)
                   0 (if ndim s > 1 then 256 else 0) 0 (if ndim s > 2 then 256 else 0)) [0..256] (amplitude0, ?s))"
  have start: "gen_inv s [] (snd (amplitude0, ?s))"
    using gen_inv_start [of s] by simp
  have "gen_inv s ([] @ concat (map (mirrors (ndim s))
          (retained_ikx s [0..256] [0..(if ndim s > 1 then 256 else 0)] [0..(if ndim s > 2 then 256 else 0)]))) ?t"
    using start assms(1) refl refl by (rule gen_ikx_fold_inv)
  then have g: "gen_inv s (mode_list s) ?t"
    by (simp add: mode_list_def retained_wavevectors_def)
  have ne: "spect_form s \<noteq> 2"
    using assms(1) by auto
  have "Inr s' = Inr (?t\<lparr>n_modes := n_modes ?t + 1\<rparr>)"
    using assms(2) ne unfolding TurbGen_init_modes_def count_pass_eq Let_def
    by (simp split: if_splits cong: if_cong)
  then show ?thesis
    using g by simp
qed

subsection \<open>A one-dimensional band example\<close>

lemma band_fields:
  "ndim band_state = 1" "spect_form band_state = 0" "xmax band_state - xmin band_state = 2 * pi"
  "ymax band_state - ymin band_state = 1" "zmax band_state - zmin band_state = 1"
  "stir_min band_state = 1" "stir_max band_state = 2"
  by (simp_all add: band_state_def tgd_start_def)

lemma band_retained: "retained_wavevectors band_state = [(1, 0, 0), (2, 0, 0)]"
  by (simp add: retained_wavevectors_def retained_ikx_def retained_iky_def retained_ikz_def
      in_band_def band_fields upto_rec1)

lemma c_pow_simps: "c_pow x 0 = 1" "0 < x \<Longrightarrow> c_pow x y = (if y = 0 then 1 else x powr y)"
  by (simp_all add: c_pow_def)

lemma band_gen:
  "snd (fold (gen_ikx pp 1 (2 * pi) 1 1 0 0 0 0) [0..256] (a0, band_state\<lparr>n_modes := - 1\<rparr>))
     = band_modes\<lparr>n_modes := 1\<rparr>"
  unfolding band_modes_def
  by (simp add: gen_ikx_def gen_iky_def gen_ikz_def store_mode_def Let_def band_fields upto_rec1
      c_pow_simps X_def Y_def Z_def fun_upd_twist)

lemma band_count: "count_pass band_state = band_state\<lparr>n_modes := 2\<rparr>"
  by (simp add: count_pass_eq band_retained band_fields mirror_multiplicity_def)

lemma band_modes_fields:
  "n_modes band_modes = 2" "ndim band_modes = 1" "spect_form band_modes = 0"
  "stir_min band_modes = 1" "stir_max band_modes = 2"
  "mode band_modes X 0 = 1" "mode band_modes Y 0 = 0" "mode band_modes Z 0 = 0"
  "mode band_modes X (Suc 0) = 2" "mode band_modes Y (Suc 0) = 0" "mode band_modes Z (Suc 0) = 0"
  "ampl band_modes 0 = 1" "ampl band_modes (Suc 0) = 1"
  by (simp_all add: band_modes_def X_def Y_def Z_def band_state_def tgd_start_def)

lemma band_init: "TurbGen_init_modes a0 band_state = Inr band_modes"
proof -
  have "band_modes\<lparr>n_modes := 1\<rparr>\<lparr>n_modes := n_modes (band_modes\<lparr>n_modes := 1\<rparr>) + 1\<rparr> = band_modes"
    by (simp add: band_modes_def)
  then show ?thesis
    unfolding TurbGen_init_modes_def band_count Let_def
    by (simp add: band_fields band_gen band_modes_fields c_pow_simps tgd_max_n_modes_def)
qed

subsection \<open>Every mode lies in the band and has a wavevector that is not zero\<close>

lemma wavenumber_n_modes [simp]: "wavenumber (s\<lparr>n_modes := m\<rparr>) = wavenumber s"
  by (simp add: wavenumber_def fun_eq_iff)

lemma init_modes_config:
  assumes "TurbGen_init_modes amplitude0 s = Inr s'"
  shows "same_config s s'" and "0 \<le> n_modes s'"
  using init_modes_result [OF assms] by (simp_all add: modes_ok_def same_config_def)

text \<open>
  Claim C3. Whenever \<^verbatim>\<open>TurbGen_init_modes\<close> returns (in any of the three spectral forms, for
  any configuration), every mode \<open>i < n_modes\<close> it leaves has a wavenumber
  \<open>sqrt (kx\<^sup>2 + ky\<^sup>2 + kz\<^sup>2)\<close> in the closed band from \<open>stir_min\<close> to \<open>stir_max\<close>, which
  the builder does not change.
\<close>

theorem init_modes_wavenumbers_in_band:
  assumes "TurbGen_init_modes amplitude0 s = Inr s'" and "i < nat (n_modes s')"
  shows "stir_min s' \<le> sqrt (mode s' X i * mode s' X i + mode s' Y i * mode s' Y i + mode s' Z i * mode s' Z i) \<and>
         sqrt (mode s' X i * mode s' X i + mode s' Y i * mode s' Y i + mode s' Z i * mode s' Z i) \<le> stir_max s' \<and>
         stir_min s' = stir_min s \<and> stir_max s' = stir_max s"
proof -
  have m: "modes_ok (s\<lparr>n_modes := - 1\<rparr>) (s'\<lparr>n_modes := n_modes s' - 1\<rparr>)"
    using assms(1) by (rule init_modes_result)
  have i: "int i \<le> n_modes s' - 1"
    using assms(2) by simp
  have "stir_min s \<le> wavenumber s' i \<and> wavenumber s' i \<le> stir_max s"
    using m i by (simp add: modes_ok_def)
  moreover have "stir_min s' = stir_min s" "stir_max s' = stir_max s"
    using init_modes_config(1) [OF assms(1)] by (simp_all add: same_config_def)
  ultimately show ?thesis
    by (simp add: wavenumber_def)
qed

theorem init_modes_wavenumbers_in_band_witness:
  "TurbGen_init_modes 0 band_state = Inr band_modes \<and> 1 < nat (n_modes band_modes) \<and>
   stir_min band_modes \<le> sqrt (mode band_modes X 1 * mode band_modes X 1
       + mode band_modes Y 1 * mode band_modes Y 1 + mode band_modes Z 1 * mode band_modes Z 1) \<and>
   sqrt (mode band_modes X 1 * mode band_modes X 1
       + mode band_modes Y 1 * mode band_modes Y 1 + mode band_modes Z 1 * mode band_modes Z 1)
     \<le> stir_max band_modes \<and>
   sqrt (mode band_modes X 1 * mode band_modes X 1
       + mode band_modes Y 1 * mode band_modes Y 1 + mode band_modes Z 1 * mode band_modes Z 1) = 2"
proof -
  have i: "1 < nat (n_modes band_modes)"
    by (simp add: band_modes_fields)
  show ?thesis
    using init_modes_wavenumbers_in_band [OF band_init [of 0] i] i
    by (simp add: band_init band_modes_fields)
qed

lemma k_sq_wavenumber:
  assumes "1 \<le> ndim s" and "ndim s \<le> 3"
    and "ndim s \<le> 1 \<Longrightarrow> mode s Y i = 0" and "ndim s \<le> 2 \<Longrightarrow> mode s Z i = 0"
  shows "k_sq s i = mode s X i * mode s X i + mode s Y i * mode s Y i + mode s Z i * mode s Z i"
proof -
  consider "ndim s = 1" | "ndim s = 2" | "ndim s = 3"
    using assms(1,2) by linarith
  then show ?thesis
  proof cases
    case 1
    then show ?thesis using assms(3,4) by (simp add: k_sq_def X_def)
  next
    case 2
    then show ?thesis using assms(4)
      by (simp add: k_sq_def X_def Y_def lessThan_nat_numeral lessThan_Suc)
  next
    case 3
    then show ?thesis
      by (simp add: k_sq_def X_def Y_def Z_def lessThan_nat_numeral lessThan_Suc)
  qed
qed

text \<open>
  Claim C8. If \<open>stir_min\<close> is positive and \<open>ndim\<close> is 1, 2 or 3, every mode
  \<open>i < n_modes\<close> that \<^verbatim>\<open>TurbGen_init_modes\<close> leaves has \<open>k_sq > 0\<close>, the sum of the squares
  of its wavevector over the first \<open>ndim\<close> axes; this sum is the divisor \<open>kk\<close> that the
  first inner loop of \<^verbatim>\<open>TurbGen_get_decomposition_coeffs\<close> computes for the mode.
\<close>

theorem init_modes_k_sq_positive:
  assumes "TurbGen_init_modes amplitude0 s = Inr s'" and "0 < stir_min s"
    and "1 \<le> ndim s" and "ndim s \<le> 3" and "i < nat (n_modes s')"
  shows "0 < k_sq s' i \<and>
         snd (snd (fold (decomposition_sums_body s' i) [0..<nat (ndim s')] (0, 0, 0))) = k_sq s' i"
proof -
  have m: "modes_ok (s\<lparr>n_modes := - 1\<rparr>) (s'\<lparr>n_modes := n_modes s' - 1\<rparr>)"
    using assms(1) by (rule init_modes_result)
  have i: "int i \<le> n_modes s' - 1"
    using assms(5) by simp
  have d: "ndim s' = ndim s"
    using init_modes_config(1) [OF assms(1)] by (simp add: same_config_def)
  have b: "stir_min s \<le> wavenumber s' i" and y: "ndim s \<le> 1 \<Longrightarrow> mode s' Y i = 0"
    and z: "ndim s \<le> 2 \<Longrightarrow> mode s' Z i = 0"
    using m i by (simp_all add: modes_ok_def)
  have "k_sq s' i = mode s' X i * mode s' X i + mode s' Y i * mode s' Y i + mode s' Z i * mode s' Z i"
    using assms(3,4) y z by (intro k_sq_wavenumber) (simp_all add: d)
  moreover have "0 < wavenumber s' i"
    using assms(2) b by linarith
  ultimately have "0 < k_sq s' i"
    by (simp add: wavenumber_def)
  then show ?thesis
    by (simp add: decomposition_sums_fold k_sq_def)
qed

theorem init_modes_k_sq_positive_witness:
  "TurbGen_init_modes 0 band_state = Inr band_modes \<and> 0 < stir_min band_state \<and>
   1 \<le> ndim band_state \<and> ndim band_state \<le> 3 \<and> 0 < nat (n_modes band_modes) \<and>
   0 < k_sq band_modes 0 \<and> k_sq band_modes 0 = 1 \<and>
   snd (snd (fold (decomposition_sums_body band_modes 0) [0..<nat (ndim band_modes)] (0, 0, 0))) = k_sq band_modes 0"
proof -
  have h: "0 < stir_min band_state" "1 \<le> ndim band_state" "ndim band_state \<le> 3"
    "0 < nat (n_modes band_modes)"
    by (simp_all add: band_fields band_modes_fields)
  have "k_sq band_modes 0 = 1"
    using band_modes_fields by (simp add: k_sq_def X_def)
  then show ?thesis
    using init_modes_k_sq_positive [OF band_init [of 0] h] h
    by (simp add: band_init)
qed

subsection \<open>The two passes agree\<close>

lemma mirror_multiplicity_values:
  "mirror_multiplicity 1 = 1" "mirror_multiplicity 2 = 2" "mirror_multiplicity 3 = 4"
  by (simp_all add: mirror_multiplicity_def)

text \<open>
  Claim C10. For the Band and Parabola forms, whenever \<^verbatim>\<open>TurbGen_init_modes\<close> returns, the
  final \<open>n_modes\<close> (after the trailing increment) is the count the counting pass leaves
  (\<^verbatim>\<open>tot_n_modes\<close>): both passes keep the same lattice wavevectors, those in the band, each
  with multiplicity \<open>mirror_multiplicity ndim\<close> (1, 2, 4 for \<open>ndim\<close> = 1, 2, 3). The entries
  \<open>i < n_modes\<close> of the mode and amplitude arrays hold these wavevectors with their mirror
  images, in the order of the loops, and their amplitudes; the entries from \<open>n_modes\<close> on are
  as they were before the call.
\<close>

theorem init_modes_count_matches:
  assumes "spect_form s = 0 \<or> spect_form s = 1" and "TurbGen_init_modes amplitude0 s = Inr s'"
  shows "n_modes s' = n_modes (count_pass s) \<and>
         n_modes s' = mirror_multiplicity (ndim s) * int (length (retained_wavevectors s)) \<and>
         mirror_multiplicity 1 = 1 \<and> mirror_multiplicity 2 = 2 \<and> mirror_multiplicity 3 = 4 \<and>
         nat (n_modes s') = length (mode_list s) \<and>
         (\<forall>i<nat (n_modes s').
            (mode s' X i, mode s' Y i, mode s' Z i) = mode_list s ! i \<and>
            ampl s' i = band_amplitude s (mode_list s ! i)) \<and>
         (\<forall>i j. nat (n_modes s') \<le> i \<longrightarrow> ampl s' i = ampl s i \<and> mode s' j i = mode s j i)"
proof -
  have g: "gen_inv s (mode_list s) (s'\<lparr>n_modes := n_modes s' - 1\<rparr>)"
    using assms by (rule init_modes_band)
  then have n: "n_modes s' = int (length (mode_list s))"
    by (simp add: gen_inv_def)
  then have n': "nat (n_modes s') = length (mode_list s)"
    by simp
  have "n_modes s' = mirror_multiplicity (ndim s) * int (length (retained_wavevectors s))"
    using n by (simp add: length_mode_list)
  moreover from this have "n_modes s' = n_modes (count_pass s)"
    by (simp add: count_pass_eq)
  moreover have "\<forall>i<nat (n_modes s').
            (mode s' X i, mode s' Y i, mode s' Z i) = mode_list s ! i \<and>
            ampl s' i = band_amplitude s (mode_list s ! i)"
    using g unfolding n' by (simp add: gen_inv_def)
  moreover have "\<forall>i j. nat (n_modes s') \<le> i \<longrightarrow> ampl s' i = ampl s i \<and> mode s' j i = mode s j i"
    using g unfolding n' by (simp add: gen_inv_def)
  ultimately show ?thesis
    using n' mirror_multiplicity_values by blast
qed

theorem init_modes_count_matches_witness:
  "spect_form band_state = 0 \<and> TurbGen_init_modes 0 band_state = Inr band_modes \<and>
   n_modes band_modes = n_modes (count_pass band_state) \<and> n_modes band_modes = 2 \<and>
   mode_list band_state = [(1, 0, 0), (2, 0, 0)] \<and>
   (mode band_modes X 1, mode band_modes Y 1, mode band_modes Z 1) = mode_list band_state ! 1 \<and>
   ampl band_modes 1 = band_amplitude band_state (mode_list band_state ! 1) \<and>
   ampl band_modes 2 = ampl band_state 2 \<and> mode band_modes X 2 = mode band_state X 2"
proof -
  have h: "spect_form band_state = 0 \<or> spect_form band_state = 1"
    by (simp add: band_fields)
  have l: "mode_list band_state = [(1, 0, 0), (2, 0, 0)]"
    by (simp add: mode_list_def band_retained mirrors_def band_fields)
  note t = init_modes_count_matches [OF h band_init [of 0]]
  have n: "n_modes band_modes = n_modes (count_pass band_state)"
    using t by blast
  have "\<forall>i<nat (n_modes band_modes).
          (mode band_modes X i, mode band_modes Y i, mode band_modes Z i) = mode_list band_state ! i \<and>
          ampl band_modes i = band_amplitude band_state (mode_list band_state ! i)"
    using t by blast
  moreover have "1 < nat (n_modes band_modes)"
    by (simp add: band_modes_fields)
  ultimately have a: "(mode band_modes X 1, mode band_modes Y 1, mode band_modes Z 1) = mode_list band_state ! 1"
      "ampl band_modes 1 = band_amplitude band_state (mode_list band_state ! 1)"
    by blast+
  have "\<forall>i j. nat (n_modes band_modes) \<le> i \<longrightarrow>
          ampl band_modes i = ampl band_state i \<and> mode band_modes j i = mode band_state j i"
    using t by blast
  moreover have "nat (n_modes band_modes) \<le> 2"
    by (simp add: band_modes_fields)
  ultimately have b: "ampl band_modes 2 = ampl band_state 2" "mode band_modes X 2 = mode band_state X 2"
    by blast+
  show ?thesis
    using n a b l by (simp add: band_init band_fields band_modes_fields)
qed

subsection \<open>The step counter\<close>

lemma OU_noise_init_step: "step (TurbGen_OU_noise_init s) = step s"
  unfolding TurbGen_OU_noise_init_def
  by (rule fold_invariant [where P = "\<lambda>t. step t = step s"])
    (simp_all add: OU_noise_init_body_def TurbGen_grn_def split_beta Let_def)

lemma init_parameters_step: "step (init_parameters par file pe s) = - 1"
  by (simp add: init_parameters_def Let_def)

lemma init_turbulence_generator_step:
  assumes "TurbGen_init_turbulence_generator par file pe amplitude0 s = Inr s'"
  shows "step s' = - 1"
proof -
  let ?s1 = "init_parameters par file pe s"
  obtain t where i: "TurbGen_init_modes amplitude0 ?s1 = Inr t"
    and s': "s' = TurbGen_get_decomposition_coeffs (TurbGen_OU_noise_init t)"
    using assms unfolding TurbGen_init_turbulence_generator_def Let_def
    by (cases "TurbGen_init_modes amplitude0 ?s1") simp_all
  have "step t = step ?s1"
    using init_modes_config(1) [OF i] by (simp add: same_config_def)
  then show ?thesis
    by (simp add: s' init_parameters_step get_decomposition_coeffs_frame OU_noise_init_step)
qed

text \<open>
  Claim C7. The step counter is \<open>-1\<close> after \<^verbatim>\<open>TurbGen_init_turbulence_generator\<close>, each
  call of \<^verbatim>\<open>TurbGen_OU_noise_update\<close> adds exactly 1 to it, a call of
  \<^verbatim>\<open>TurbGen_check_for_update\<close> never decreases it, and along any sequence of such calls
  (whatever the times, in particular non-decreasing ones) it never decreases.
\<close>

theorem step_counter_monotone:
  "(\<forall>s'. TurbGen_init_turbulence_generator par file pe amplitude0 s = Inr s' \<longrightarrow> step s' = - 1) \<and>
   step (TurbGen_OU_noise_update s) = step s + 1 \<and>
   step s \<le> step (snd (TurbGen_check_for_update time s)) \<and>
   step (run_updates ts s) \<le> step (run_updates (ts @ us) s)"
  by (simp add: init_turbulence_generator_step OU_noise_update_frame check_for_update_step
      run_updates_append run_updates_step_mono)

lemma length_retained:
  "length (retained_ikz s kx ky ikzs) \<le> length ikzs"
  "length (retained_iky s kx ikys ikzs) \<le> length ikys * length ikzs"
  "length (retained_ikx s ikxs ikys ikzs) \<le> length ikxs * length ikys * length ikzs"
proof -
  show z: "length (retained_ikz s kx ky ikzs) \<le> length ikzs" for kx ky
    by (simp add: retained_ikz_def)
  show y: "length (retained_iky s kx ikys ikzs) \<le> length ikys * length ikzs" for kx
  proof (induction ikys)
    case Nil
    show ?case by (simp add: retained_iky_def)
  next
    case (Cons iky ikys)
    show ?case
      using Cons z [of kx "2 * pi * real_of_int iky / (ymax s - ymin s)"]
      unfolding retained_Cons(2) [of s kx iky ikys] by simp
  qed
  show "length (retained_ikx s ikxs ikys ikzs) \<le> length ikxs * length ikys * length ikzs"
  proof (induction ikxs)
    case Nil
    show ?case by (simp add: retained_ikx_def)
  next
    case (Cons ikx ikxs)
    show ?case
      using Cons y [of "2 * pi * real_of_int ikx / (xmax s - xmin s)"]
      unfolding retained_Cons(3) [of s ikx ikxs] by (simp add: algebra_simps)
  qed
qed

lemma init_modes_succeeds_1d:
  assumes "ndim s \<le> 1" and "spect_form s \<noteq> 2"
  shows "\<exists>s'. TurbGen_init_modes amplitude0 s = Inr s'"
proof -
  have "length (retained_wavevectors s) \<le> 257"
    using length_retained(3) [of s "[0..256]" "[0..0]" "[0..0]"] assms(1)
    by (simp add: retained_wavevectors_def)
  moreover have "mirror_multiplicity (ndim s) = 1"
    using assms(1) by (simp add: mirror_multiplicity_def)
  moreover have "c_pow 2 (real_of_int (ndim s - 1)) \<le> 1"
  proof (cases "ndim s = 1")
    case True
    then show ?thesis by (simp add: c_pow_def)
  next
    case False
    with assms(1) have "real_of_int (ndim s - 1) < 0" by simp
    then have "2 powr real_of_int (ndim s - 1) \<le> 2 powr 0"
      by (intro powr_mono) simp_all
    then show ?thesis
      using False by (simp add: c_pow_def)
  qed
  ultimately have "\<not> real_of_int (mirror_multiplicity (ndim s) * int (length (retained_wavevectors s)))
      + c_pow 2 (real_of_int (ndim s - 1)) > real_of_int tgd_max_n_modes"
    by (simp add: tgd_max_n_modes_def)
  then show ?thesis
    using assms(2) unfolding TurbGen_init_modes_def count_pass_eq Let_def
    by simp
qed

lemma init_parameters_fields:
  "ndim (init_parameters par file pe s) = par_ndim par"
  "spect_form (init_parameters par file pe s) = par_spect_form par"
  by (simp_all add: init_parameters_def Let_def)

lemma init_example_succeeds:
  "\<exists>s'. TurbGen_init_turbulence_generator example_parameters [] 0 0 tgd_start = Inr s'"
proof -
  obtain t where "TurbGen_init_modes 0 (init_parameters example_parameters [] 0 tgd_start) = Inr t"
    using init_modes_succeeds_1d [of "init_parameters example_parameters [] 0 tgd_start" 0]
    by (auto simp: init_parameters_fields example_parameters_def)
  then show ?thesis
    by (simp add: TurbGen_init_turbulence_generator_def)
qed

theorem step_counter_monotone_witness:
  "\<exists>s'. TurbGen_init_turbulence_generator example_parameters [] 0 0 tgd_start = Inr s' \<and> step s' = - 1"
  using init_example_succeeds step_counter_monotone [of example_parameters "[]" 0 0 tgd_start]
  by blast

end
